theory Spec2Isabelle
  imports Main "HOL-Library.Word"
begin

unbundle bit_operations_syntax

section \<open>Bytes, errors and the helper codecs\<close>

text \<open>
  A Python \<open>bytes\<close> object is a list of 8-bit words.  A stream (\<open>BytesIO\<close>, or the
  file object of the socket) is the list of the bytes not yet read: \<open>s.read(n)\<close> returns
  at most \<open>n\<close> bytes, fewer at the end of the stream, and never raises.
\<close>

type_synonym byte = "8 word"
type_synonym bytes = "byte list"

definition read :: "nat \<Rightarrow> bytes \<Rightarrow> bytes \<times> bytes" where
  "read n s = (take n s, drop n s)"

text \<open>
  The exceptions of \<open>network.py\<close> and of the Python runtime that can arise in the modelled
  code.  Every \<open>raise RuntimeError(msg)\<close> of the source keeps its message.
\<close>

datatype error =
    RuntimeError string
  | OverflowError
  | ValueError
  | KeyError
  | TypeError
  | AttributeError

text \<open>
  Modelled from the spec: \<open>int_to_little_endian\<close> of \<open>helper.py\<close> (not part of the
  sources; the spec's "intToLE(n, width) -> bytes").  It is Python's
  \<open>n.to_bytes(length, 'little')\<close>, which raises \<open>OverflowError\<close> for a negative
  \<open>n\<close> and for an \<open>n\<close> that does not fit \<open>length\<close> bytes.
\<close>

fun le_bytes :: "nat \<Rightarrow> nat \<Rightarrow> bytes" where
  "le_bytes 0 n = []"
| "le_bytes (Suc w) n = of_nat n # le_bytes w (n div 256)"

definition int_to_little_endian :: "int \<Rightarrow> nat \<Rightarrow> error + bytes" where
  "int_to_little_endian n w =
     (if n < 0 \<or> 256 ^ w \<le> n then Inl OverflowError else Inr (le_bytes w (nat n)))"

text \<open>
  Modelled from the spec: \<open>little_endian_to_int\<close> of \<open>helper.py\<close> (the spec's
  "leToInt(bytes) -> n"), Python's \<open>int.from_bytes(b, 'little')\<close>; the empty byte string
  decodes to 0.
\<close>

fun little_endian_to_int :: "bytes \<Rightarrow> nat" where
  "little_endian_to_int [] = 0"
| "little_endian_to_int (b # bs) = unat b + 256 * little_endian_to_int bs"

text \<open>
  Modelled from the spec: \<open>encode_varint\<close> of \<open>helper.py\<close> (the spec's
  "encodeVarint(uint) -> bytes"): one byte below \<open>0xfd\<close>, else a marker byte and 2, 4 or
  8 little-endian bytes.  The tests of \<open>network.py\<close> fix \<open>encode_varint(1) = 01\<close>,
  \<open>encode_varint(2) = 02\<close> and \<open>encode_varint(27) = 1b\<close>.
\<close>

definition encode_varint :: "int \<Rightarrow> error + bytes" where
  "encode_varint i =
     (if i < 0 then Inl ValueError
      else if i < 0xfd then Inr [of_nat (nat i)]
      else if i < 0x10000 then Inr (0xfd # le_bytes 2 (nat i))
      else if i < 0x100000000 then Inr (0xfe # le_bytes 4 (nat i))
      else if i < 0x10000000000000000 then Inr (0xff # le_bytes 8 (nat i))
      else Inl ValueError)"

section \<open>The double hash\<close>

text \<open>
  Modelled from the spec: \<open>hash256\<close> of \<open>helper.py\<close> (not part of the sources; the
  spec's "doubleHash(bytes) -> 32 bytes", the "double-application hash" whose first four
  bytes are the checksum).  It is SHA-256 applied twice, \<open>hashlib.sha256\<close> as FIPS 180-4
  defines it.
\<close>

text \<open>A 32-bit word is a natural number below \<open>2 ^ 32\<close>; sums are reduced modulo \<open>2 ^ 32\<close>.\<close>

type_synonym u32 = nat

definition add32 :: "u32 \<Rightarrow> u32 \<Rightarrow> u32" where
  "add32 x y = (x + y) mod 2 ^ 32"

definition not32 :: "u32 \<Rightarrow> u32" where
  "not32 x = x XOR 0xffffffff"

definition shr :: "nat \<Rightarrow> u32 \<Rightarrow> u32" where
  "shr n x = x div 2 ^ n"

definition rotr :: "nat \<Rightarrow> u32 \<Rightarrow> u32" where
  "rotr n x = (x div 2 ^ n) OR ((x * 2 ^ (32 - n)) mod 2 ^ 32)"

definition Ch :: "u32 \<Rightarrow> u32 \<Rightarrow> u32 \<Rightarrow> u32" where
  "Ch x y z = (x AND y) XOR (not32 x AND z)"

definition Maj :: "u32 \<Rightarrow> u32 \<Rightarrow> u32 \<Rightarrow> u32" where
  "Maj x y z = (x AND y) XOR (x AND z) XOR (y AND z)"

definition bsig0 :: "u32 \<Rightarrow> u32" where
  "bsig0 x = rotr 2 x XOR rotr 13 x XOR rotr 22 x"

definition bsig1 :: "u32 \<Rightarrow> u32" where
  "bsig1 x = rotr 6 x XOR rotr 11 x XOR rotr 25 x"

definition ssig0 :: "u32 \<Rightarrow> u32" where
  "ssig0 x = rotr 7 x XOR rotr 18 x XOR shr 3 x"

definition ssig1 :: "u32 \<Rightarrow> u32" where
  "ssig1 x = rotr 17 x XOR rotr 19 x XOR shr 10 x"

text \<open>The 64 round constants, eight to a row.\<close>

definition K256 :: "u32 list" where
  "K256 =
     [0x428a2f98, 0x71374491, 0xb5c0fbcf, 0xe9b5dba5, 0x3956c25b, 0x59f111f1, 0x923f82a4, 0xab1c5ed5]
     @ [0xd807aa98, 0x12835b01, 0x243185be, 0x550c7dc3, 0x72be5d74, 0x80deb1fe, 0x9bdc06a7, 0xc19bf174]
     @ [0xe49b69c1, 0xefbe4786, 0x0fc19dc6, 0x240ca1cc, 0x2de92c6f, 0x4a7484aa, 0x5cb0a9dc, 0x76f988da]
     @ [0x983e5152, 0xa831c66d, 0xb00327c8, 0xbf597fc7, 0xc6e00bf3, 0xd5a79147, 0x06ca6351, 0x14292967]
     @ [0x27b70a85, 0x2e1b2138, 0x4d2c6dfc, 0x53380d13, 0x650a7354, 0x766a0abb, 0x81c2c92e, 0x92722c85]
     @ [0xa2bfe8a1, 0xa81a664b, 0xc24b8b70, 0xc76c51a3, 0xd192e819, 0xd6990624, 0xf40e3585, 0x106aa070]
     @ [0x19a4c116, 0x1e376c08, 0x2748774c, 0x34b0bcb5, 0x391c0cb3, 0x4ed8aa4a, 0x5b9cca4f, 0x682e6ff3]
     @ [0x748f82ee, 0x78a5636f, 0x84c87814, 0x8cc70208, 0x90befffa, 0xa4506ceb, 0xbef9a3f7, 0xc67178f2]"

type_synonym sha_state = "u32 \<times> u32 \<times> u32 \<times> u32 \<times> u32 \<times> u32 \<times> u32 \<times> u32"

definition H256 :: sha_state where
  "H256 =
    (0x6a09e667, 0xbb67ae85, 0x3c6ef372, 0xa54ff53a, 0x510e527f, 0x9b05688c, 0x1f83d9ab, 0x5be0cd19)"

fun sha_mix :: "sha_state \<Rightarrow> u32 \<Rightarrow> u32 \<Rightarrow> sha_state" where
  "sha_mix (a, b, c, d, e, f, g, h) t1 t2 = (add32 t1 t2, a, b, c, add32 d t1, e, f, g)"

fun sha_round :: "u32 \<times> u32 \<Rightarrow> sha_state \<Rightarrow> sha_state" where
  "sha_round (k, w) (a, b, c, d, e, f, g, h) =
     sha_mix (a, b, c, d, e, f, g, h)
       (add32 (add32 (add32 (add32 h (bsig1 e)) (Ch e f g)) k) w)
       (add32 (bsig0 a) (Maj a b c))"

fun sha_add :: "sha_state \<Rightarrow> sha_state \<Rightarrow> sha_state" where
  "sha_add (a, b, c, d, e, f, g, h) (a', b', c', d', e', f', g', h') =
     (add32 a a', add32 b b', add32 c c', add32 d d',
      add32 e e', add32 f f', add32 g g', add32 h h')"

fun sha_words :: "sha_state \<Rightarrow> u32 list" where
  "sha_words (a, b, c, d, e, f, g, h) = [a, b, c, d, e, f, g, h]"

text \<open>The message schedule, newest word first: 48 words are added to the 16 of the block.\<close>

fun sha_schedule :: "nat \<Rightarrow> u32 list \<Rightarrow> u32 list" where
  "sha_schedule 0 ws = ws"
| "sha_schedule (Suc n) ws =
     sha_schedule n
       (add32 (add32 (add32 (ssig1 (ws ! 1)) (ws ! 6)) (ssig0 (ws ! 14))) (ws ! 15) # ws)"

fun be32 :: "bytes \<Rightarrow> u32 list" where
  "be32 (a # b # c # d # bs) =
     (unat a * 2 ^ 24 + unat b * 2 ^ 16 + unat c * 2 ^ 8 + unat d) # be32 bs"
| "be32 _ = []"

definition sha_compress :: "bytes \<Rightarrow> sha_state \<Rightarrow> sha_state" where
  "sha_compress block st =
     sha_add st (fold sha_round (zip K256 (rev (sha_schedule 48 (rev (be32 block))))) st)"

fun sha_blocks :: "nat \<Rightarrow> bytes \<Rightarrow> sha_state \<Rightarrow> sha_state" where
  "sha_blocks 0 bs st = st"
| "sha_blocks (Suc n) bs st = sha_blocks n (drop 64 bs) (sha_compress (take 64 bs) st)"

definition be_bytes :: "nat \<Rightarrow> nat \<Rightarrow> bytes" where
  "be_bytes w n = map (\<lambda>i. of_nat (n div 256 ^ i mod 256)) (rev [0..<w])"

definition sha_pad :: "bytes \<Rightarrow> bytes" where
  "sha_pad m =
     m @ [0x80] @ replicate ((119 - length m mod 64) mod 64) 0 @ be_bytes 8 (8 * length m)"

definition sha256 :: "bytes \<Rightarrow> bytes" where
  "sha256 m =
     concat (map (be_bytes 4) (sha_words (sha_blocks (length (sha_pad m) div 64) (sha_pad m) H256)))"

definition hash256 :: "bytes \<Rightarrow> bytes" where
  "hash256 s = sha256 (sha256 s)"

section \<open>NetworkEnvelope\<close>

text \<open>The table \<open>MAGIC\<close>; a lookup of a network that is not a key raises \<open>KeyError\<close>.\<close>

definition MAGIC :: "string \<rightharpoonup> bytes" where
  "MAGIC = map_of
     [(''mainnet'', [0xf9, 0xbe, 0xb4, 0xd9]),
      (''testnet'', [0x0b, 0x11, 0x09, 0x07]),
      (''signet'', [0x0a, 0x03, 0xcf, 0x40])]"

record NetworkEnvelope =
  command :: bytes
  payload :: bytes
  magic :: bytes

definition NetworkEnvelope_init :: "bytes \<Rightarrow> bytes \<Rightarrow> string \<Rightarrow> error + NetworkEnvelope" where
  "NetworkEnvelope_init cmd pl network =
     (case MAGIC network of
        None \<Rightarrow> Inl KeyError
      | Some m \<Rightarrow> Inr \<lparr>command = cmd, payload = pl, magic = m\<rparr>)"

text \<open>\<open>bytes.hex()\<close>: two lower-case hexadecimal digits per byte.\<close>

definition hex_digit :: "nat \<Rightarrow> char" where
  "hex_digit n = ''0123456789abcdef'' ! n"

definition hex :: "bytes \<Rightarrow> string" where
  "hex bs = concat (map (\<lambda>b. [hex_digit (unat b div 16), hex_digit (unat b mod 16)]) bs)"

text \<open>
  \<open>bytes.strip(b"\x00")\<close> removes the zero bytes at both ends of the byte string, the
  leading ones as well as the trailing ones.
\<close>

definition strip :: "byte \<Rightarrow> bytes \<Rightarrow> bytes" where
  "strip c bs = rev (dropWhile (\<lambda>b. b = c) (rev (dropWhile (\<lambda>b. b = c) bs)))"

text \<open>
  \<open>NetworkEnvelope.parse\<close>.  The result holds the envelope and the rest of the stream.
  The reads follow the source's order: magic, command, length, checksum, payload; then the
  checksum test; then the constructor.
\<close>

definition NetworkEnvelope_parse :: "bytes \<Rightarrow> string \<Rightarrow> error + NetworkEnvelope \<times> bytes" where
  "NetworkEnvelope_parse s network =
     (case read 4 s of (mg, s1) \<Rightarrow>
        if mg = [] then Inl (RuntimeError ''Connection reset!'')
        else
          (case MAGIC network of
             None \<Rightarrow> Inl KeyError
           | Some expected \<Rightarrow>
               if mg \<noteq> expected
               then Inl (RuntimeError (''magic is not right '' @ hex mg @ '' vs '' @ hex expected))
               else
                 (case read 12 s1 of (field, s2) \<Rightarrow>
                  case read 4 s2 of (len, s3) \<Rightarrow>
                  case read 4 s3 of (checksum, s4) \<Rightarrow>
                  case read (little_endian_to_int len) s4 of (pl, s5) \<Rightarrow>
                    if take 4 (hash256 pl) \<noteq> checksum
                    then Inl (RuntimeError ''checksum does not match'')
                    else
                      (case NetworkEnvelope_init (strip 0 field) pl network of
                         Inl e \<Rightarrow> Inl e
                       | Inr env \<Rightarrow> Inr (env, s5)))))"

text \<open>
  \<open>NetworkEnvelope.serialize\<close>.  \<open>b"\x00" * k\<close> is empty for a negative \<open>k\<close>, as
  \<open>replicate (nat k)\<close> is.
\<close>

definition NetworkEnvelope_serialize :: "NetworkEnvelope \<Rightarrow> error + bytes" where
  "NetworkEnvelope_serialize e =
     (case int_to_little_endian (int (length (payload e))) 4 of
        Inl err \<Rightarrow> Inl err
      | Inr len \<Rightarrow>
          Inr (magic e
               @ command e @ replicate (nat (12 - int (length (command e)))) 0
               @ len
               @ take 4 (hash256 (payload e))
               @ payload e))"

section \<open>Well-formed frames\<close>

text \<open>
  The frame layout of the wire format: magic (4 bytes, the one of the network), command
  field (12 bytes: a command with no zero byte at either end, then zero bytes), payload
  length (4 bytes, little-endian), checksum (4 bytes, the first four of the double hash of
  the payload), and exactly that many payload bytes.
\<close>

definition well_formed_frame :: "bytes \<Rightarrow> string \<Rightarrow> bool" where
  "well_formed_frame bs network =
     (24 \<le> length bs
      \<and> MAGIC network = Some (take 4 bs)
      \<and> strip 0 (take 12 (drop 4 bs))
            @ replicate (12 - length (strip 0 (take 12 (drop 4 bs)))) 0
          = take 12 (drop 4 bs)
      \<and> little_endian_to_int (take 4 (drop 16 bs)) = length (drop 24 bs)
      \<and> take 4 (drop 20 bs) = take 4 (hash256 (drop 24 bs)))"

text \<open>The first frame of \<open>NetworkEnvelopeTest\<close>: a \<open>verack\<close> on mainnet, 24 bytes.\<close>

definition verack_frame :: bytes where
  "verack_frame =
     [0xf9, 0xbe, 0xb4, 0xd9, 0x76, 0x65, 0x72, 0x61, 0x63, 0x6b, 0x00, 0x00, 0x00, 0x00, 0x00,
      0x00, 0x00, 0x00, 0x00, 0x00, 0x5d, 0xf6, 0xe0, 0xe2]"

text \<open>
  The frame as the specification's scenario A writes it: the command field has 15 bytes
  (\<open>76 65 72 61 63 6b\<close> and nine zero bytes), so the frame has 27 bytes.
\<close>

definition scenario_A_frame :: bytes where
  "scenario_A_frame =
     [0xf9, 0xbe, 0xb4, 0xd9,
      0x76, 0x65, 0x72, 0x61, 0x63, 0x6b, 0x00, 0x00, 0x00, 0x00, 0x00, 0x00, 0x00, 0x00, 0x00,
      0x00, 0x00, 0x00, 0x00,
      0x5d, 0xf6, 0xe0, 0xe2]"

text \<open>Bit \<open>i\<close> of byte \<open>j\<close> of the payload region of a frame (it starts at offset 24), flipped.\<close>

definition flip_frame_bit :: "nat \<Rightarrow> nat \<Rightarrow> bytes \<Rightarrow> bytes" where
  "flip_frame_bit j i frame = frame[24 + j := flip_bit i (frame ! (24 + j))]"

text \<open>
  Two \<open>ping\<close> frames on mainnet whose payloads \<open>13 a0 4e 0e\<close> and \<open>13 a0 4f 0e\<close>
  differ in one bit and have the same checksum \<open>51 8b 10 6d\<close>.
\<close>

definition collision_frame_a :: bytes where
  "collision_frame_a =
     [0xf9, 0xbe, 0xb4, 0xd9, 0x70, 0x69, 0x6e, 0x67, 0, 0, 0, 0, 0, 0, 0, 0,
      0x04, 0, 0, 0, 0x51, 0x8b, 0x10, 0x6d, 0x13, 0xa0, 0x4e, 0x0e]"

definition collision_frame_b :: bytes where
  "collision_frame_b =
     [0xf9, 0xbe, 0xb4, 0xd9, 0x70, 0x69, 0x6e, 0x67, 0, 0, 0, 0, 0, 0, 0, 0,
      0x04, 0, 0, 0, 0x51, 0x8b, 0x10, 0x6d, 0x13, 0xa0, 0x4f, 0x0e]"

section \<open>GetHeadersMessage\<close>

record GetHeadersMessage =
  gh_version :: int
  gh_num_hashes :: int
  gh_start_block :: bytes
  gh_end_block :: bytes

text \<open>
  \<open>GetHeadersMessage.__init__\<close>: an absent argument is \<open>None\<close>.  The defaults
  \<open>version=70015\<close> and \<open>num_hashes=1\<close> are those of the signature.
\<close>

definition GetHeadersMessage_init ::
  "int \<Rightarrow> int \<Rightarrow> bytes option \<Rightarrow> bytes option \<Rightarrow> error + GetHeadersMessage" where
  "GetHeadersMessage_init version num_hashes start_block end_block =
     (case start_block of
        None \<Rightarrow> Inl (RuntimeError ''a start block is required'')
      | Some sb \<Rightarrow>
          Inr \<lparr>gh_version = version, gh_num_hashes = num_hashes, gh_start_block = sb,
               gh_end_block = (case end_block of None \<Rightarrow> replicate 32 0 | Some eb \<Rightarrow> eb)\<rparr>)"

definition GetHeadersMessage_serialize :: "GetHeadersMessage \<Rightarrow> error + bytes" where
  "GetHeadersMessage_serialize m =
     (case int_to_little_endian (gh_version m) 4 of
        Inl e \<Rightarrow> Inl e
      | Inr v \<Rightarrow>
          (case encode_varint (gh_num_hashes m) of
             Inl e \<Rightarrow> Inl e
           | Inr n \<Rightarrow> Inr (v @ n @ rev (gh_start_block m) @ rev (gh_end_block m))))"

section \<open>VersionMessage: the nonce\<close>

text \<open>
  \<open>random.randint(a, b)\<close> returns an integer \<open>N\<close> with \<open>a \<le> N \<le> b\<close>: both ends are
  possible results.  The set is the set of the values one call can return.
\<close>

definition randint :: "int \<Rightarrow> int \<Rightarrow> int set" where
  "randint a b = {a..b}"

text \<open>
  The nonce of \<open>VersionMessage.__init__\<close>: \<open>draw\<close> is the value that
  \<open>randint(0, 2**64)\<close> returns when no nonce is given.  The constructor raises what
  \<open>int_to_little_endian\<close> raises.
\<close>

definition VersionMessage_nonce :: "bytes option \<Rightarrow> int \<Rightarrow> error + bytes" where
  "VersionMessage_nonce nonce draw =
     (case nonce of
        None \<Rightarrow> int_to_little_endian draw 8
      | Some n \<Rightarrow> Inr n)"

section \<open>The messages a node sends\<close>

text \<open>The class attributes \<open>command\<close>: \<open>b"version"\<close>, \<open>b"verack"\<close>, \<open>b"ping"\<close>,
  \<open>b"pong"\<close>, \<open>b"getheaders"\<close> and \<open>b"getdata"\<close> in ASCII.\<close>

definition version_command :: bytes where
  "version_command = [0x76, 0x65, 0x72, 0x73, 0x69, 0x6f, 0x6e]"

definition verack_command :: bytes where
  "verack_command = [0x76, 0x65, 0x72, 0x61, 0x63, 0x6b]"

definition ping_command :: bytes where
  "ping_command = [0x70, 0x69, 0x6e, 0x67]"

definition pong_command :: bytes where
  "pong_command = [0x70, 0x6f, 0x6e, 0x67]"

definition getheaders_command :: bytes where
  "getheaders_command = [0x67, 0x65, 0x74, 0x68, 0x65, 0x61, 0x64, 0x65, 0x72, 0x73]"

definition getdata_command :: bytes where
  "getdata_command = [0x67, 0x65, 0x74, 0x64, 0x61, 0x74, 0x61]"

definition TX_DATA_TYPE :: int where
  "TX_DATA_TYPE = 1"

text \<open>
  The message objects that \<open>SimpleNode.send\<close> receives in this file: \<open>VerAckMessage()\<close>,
  \<open>PingMessage(nonce)\<close>, \<open>PongMessage(nonce)\<close>, a \<open>GetHeadersMessage\<close>, a
  \<open>GetDataMessage\<close> with its list \<open>data\<close>, and \<open>GenericMessage(command, payload)\<close>.
\<close>

datatype message =
    VerAck
  | Ping bytes
  | Pong bytes
  | GetHeaders GetHeadersMessage
  | GetData "(int \<times> bytes) list"
  | Generic bytes bytes

fun message_command :: "message \<Rightarrow> bytes" where
  "message_command VerAck = verack_command"
| "message_command (Ping nonce) = ping_command"
| "message_command (Pong nonce) = pong_command"
| "message_command (GetHeaders m) = getheaders_command"
| "message_command (GetData items) = getdata_command"
| "message_command (Generic cmd pl) = cmd"

text \<open>The loop of \<open>GetDataMessage.serialize\<close> over \<open>self.data\<close>.\<close>

fun GetDataMessage_items :: "(int \<times> bytes) list \<Rightarrow> error + bytes" where
  "GetDataMessage_items [] = Inr []"
| "GetDataMessage_items ((data_type, identifier) # items) =
     (case int_to_little_endian data_type 4 of
        Inl e \<Rightarrow> Inl e
      | Inr t \<Rightarrow>
          (case GetDataMessage_items items of
             Inl e \<Rightarrow> Inl e
           | Inr r \<Rightarrow> Inr (t @ rev identifier @ r)))"

definition GetDataMessage_serialize :: "(int \<times> bytes) list \<Rightarrow> error + bytes" where
  "GetDataMessage_serialize items =
     (case encode_varint (int (length items)) of
        Inl e \<Rightarrow> Inl e
      | Inr n \<Rightarrow>
          (case GetDataMessage_items items of
             Inl e \<Rightarrow> Inl e
           | Inr r \<Rightarrow> Inr (n @ r)))"

fun message_serialize :: "message \<Rightarrow> error + bytes" where
  "message_serialize VerAck = Inr []"
| "message_serialize (Ping nonce) = Inr nonce"
| "message_serialize (Pong nonce) = Inr nonce"
| "message_serialize (GetHeaders m) = GetHeadersMessage_serialize m"
| "message_serialize (GetData items) = GetDataMessage_serialize items"
| "message_serialize (Generic cmd pl) = Inr pl"

section \<open>Message classes as \<open>wait_for\<close> uses them\<close>

text \<open>
  \<open>wait_for\<close> takes classes and uses three attributes of each: \<open>command\<close>,
  \<open>define_network\<close>, and the call \<open>cls.parse(stream)\<close> (with \<open>network=...\<close> when
  \<open>define_network\<close> is set).  \<open>cls_parse\<close> is that call on a stream holding the
  envelope's payload; its second argument is the keyword argument, when given.
\<close>

record 'm message_class =
  cls_command :: bytes
  cls_define_network :: bool
  cls_parse :: "bytes \<Rightarrow> string option \<Rightarrow> error + 'm"

definition VerAckMessage_class :: "message message_class" where
  "VerAckMessage_class =
     \<lparr>cls_command = verack_command, cls_define_network = False,
      cls_parse = (\<lambda>s network. Inr VerAck)\<rparr>"

text \<open>\<open>PingMessage.parse\<close> is a classmethod: it reads 8 bytes and builds the message.\<close>

definition PingMessage_parse :: "bytes \<Rightarrow> message" where
  "PingMessage_parse s = (case read 8 s of (nonce, rest) \<Rightarrow> Ping nonce)"

definition PingMessage_class :: "message message_class" where
  "PingMessage_class =
     \<lparr>cls_command = ping_command, cls_define_network = False,
      cls_parse = (\<lambda>s network. Inr (PingMessage_parse s))\<rparr>"

text \<open>
  \<open>PongMessage.parse\<close> has the same body, \<open>def parse(cls, s)\<close>, but without the
  \<open>@classmethod\<close> decorator: looked up on the class it is a plain function of two
  positional parameters, and nothing is bound to \<open>cls\<close>.  A call passes the list of its
  positional arguments; with any other number than two Python raises \<open>TypeError\<close>
  before the body runs.  With two arguments the body reads 8 bytes from the second and
  calls the first, which raises \<open>TypeError\<close> unless the first is the class.
\<close>

datatype argument = Class | Stream bytes

definition PongMessage_parse :: "argument list \<Rightarrow> error + message" where
  "PongMessage_parse args =
     (case args of
        [Class, Stream s] \<Rightarrow> (case read 8 s of (nonce, rest) \<Rightarrow> Inr (Pong nonce))
      | _ \<Rightarrow> Inl TypeError)"

text \<open>The call \<open>cls.parse(envelope.stream())\<close> of \<open>wait_for\<close> passes one argument.\<close>

definition PongMessage_class :: "message message_class" where
  "PongMessage_class =
     \<lparr>cls_command = pong_command, cls_define_network = False,
      cls_parse = (\<lambda>s network. PongMessage_parse [Stream s])\<rparr>"

section \<open>SimpleNode\<close>

text \<open>
  The node: its network, the bytes the peer has sent that are not read yet, and the byte
  strings handed to \<open>socket.sendall\<close>, oldest first.  A peer that has closed the
  connection is the empty stream.
\<close>

record SimpleNode =
  node_network :: string
  stream :: bytes
  sent :: "bytes list"

definition send :: "SimpleNode \<Rightarrow> message \<Rightarrow> error + SimpleNode" where
  "send node m =
     (case message_serialize m of
        Inl e \<Rightarrow> Inl e
      | Inr pl \<Rightarrow>
          (case NetworkEnvelope_init (message_command m) pl (node_network node) of
             Inl e \<Rightarrow> Inl e
           | Inr envelope \<Rightarrow>
               (case NetworkEnvelope_serialize envelope of
                  Inl e \<Rightarrow> Inl e
                | Inr bs \<Rightarrow> Inr (node\<lparr>sent := sent node @ [bs]\<rparr>))))"

definition node_read :: "SimpleNode \<Rightarrow> error + NetworkEnvelope \<times> SimpleNode" where
  "node_read node =
     (case NetworkEnvelope_parse (stream node) (node_network node) of
        Inl e \<Rightarrow> Inl e
      | Inr (envelope, rest) \<Rightarrow> Inr (envelope, node\<lparr>stream := rest\<rparr>))"

text \<open>
  The dictionary \<open>{m.command: m for m in message_classes}\<close>: a later class replaces an
  earlier one with the same command.
\<close>

definition command_to_class :: "'m message_class list \<Rightarrow> bytes \<rightharpoonup> 'm message_class" where
  "command_to_class message_classes = map_of (rev (map (\<lambda>m. (cls_command m, m)) message_classes))"

text \<open>The \<open>if\<close>/\<open>elif\<close> of the loop body: the replies to \<open>version\<close> and \<open>ping\<close>.\<close>

definition respond :: "SimpleNode \<Rightarrow> NetworkEnvelope \<Rightarrow> error + SimpleNode" where
  "respond node envelope =
     (if command envelope = version_command then send node VerAck
      else if command envelope = ping_command then send node (Pong (payload envelope))
      else Inr node)"

section \<open>Inbound traffic\<close>

text \<open>
  The envelopes a peer can put on the wire so that they are read back unchanged: the
  network's magic, a command of at most 12 bytes with no zero byte at either end, a
  payload shorter than \<open>2 ^ 32\<close> bytes.
\<close>

definition valid_envelope :: "bytes \<Rightarrow> NetworkEnvelope \<Rightarrow> bool" where
  "valid_envelope mg e =
     (magic e = mg \<and> length (command e) \<le> 12 \<and> strip 0 (command e) = command e
      \<and> length (payload e) < 2 ^ 32)"

text \<open>The frame of an envelope: what \<open>serialize\<close> returns.\<close>

definition frame_of :: "NetworkEnvelope \<Rightarrow> bytes" where
  "frame_of e = (case NetworkEnvelope_serialize e of Inl err \<Rightarrow> [] | Inr bs \<Rightarrow> bs)"

text \<open>
  The frames the node is expected to send on an inbound envelope: one \<open>verack\<close> frame for
  a \<open>version\<close>, one \<open>pong\<close> frame with the payload of the \<open>ping\<close> for a \<open>ping\<close>, none
  otherwise.
\<close>

definition replies :: "bytes \<Rightarrow> NetworkEnvelope \<Rightarrow> bytes list" where
  "replies mg envelope =
     (if command envelope = version_command
      then [frame_of \<lparr>command = verack_command, payload = [], magic = mg\<rparr>]
      else if command envelope = ping_command
      then [frame_of \<lparr>command = pong_command, payload = payload envelope, magic = mg\<rparr>]
      else [])"

text \<open>A \<open>ping\<close> with the nonce \<open>01 \<dots> 08\<close> and a \<open>verack\<close>, on mainnet.\<close>

definition ping_envelope :: NetworkEnvelope where
  "ping_envelope =
     \<lparr>command = ping_command, payload = [1, 2, 3, 4, 5, 6, 7, 8],
      magic = [0xf9, 0xbe, 0xb4, 0xd9]\<rparr>"

definition verack_envelope :: NetworkEnvelope where
  "verack_envelope =
     \<lparr>command = verack_command, payload = [], magic = [0xf9, 0xbe, 0xb4, 0xd9]\<rparr>"

text \<open>
  A transaction class for one run of \<open>is_tx_accepted\<close>: the command is \<open>b"tx"\<close>, the
  decoded object is the payload itself, \<open>hash()\<close> is the object and \<open>id()\<close> its
  hexadecimal form.  The peer answers with a transaction whose payload is \<open>02\<close>.
\<close>

definition tx_command :: bytes where
  "tx_command = [0x74, 0x78]"

definition example_Tx_class :: "bytes message_class" where
  "example_Tx_class =
     \<lparr>cls_command = tx_command, cls_define_network = False,
      cls_parse = (\<lambda>s network. Inr s)\<rparr>"

definition example_tx_envelope :: NetworkEnvelope where
  "example_tx_envelope =
     \<lparr>command = tx_command, payload = [0x02], magic = [0xf9, 0xbe, 0xb4, 0xd9]\<rparr>"

text \<open>
  The instance of \<open>GetHeadersMessageTest.test_serialize\<close>: the start block of the test
  and the serialization the test expects.
\<close>

definition test_start_block :: bytes where
  "test_start_block =
       ([0x00, 0x00, 0x00, 0x00, 0x00, 0x00, 0x00, 0x00]
     @ [0x00, 0x12, 0x37, 0xf4, 0x6a, 0xcd, 0xdf, 0x58]
     @ [0x57, 0x8a, 0x37, 0xe2, 0x13, 0xd2, 0xa6, 0xed]
     @ [0xc4, 0x88, 0x4a, 0x2f, 0xca, 0xd0, 0x5b, 0xa3])"

section \<open>Helper facts\<close>

lemma le_bytes_numeral:
  "le_bytes (numeral k) n = of_nat n # le_bytes (pred_numeral k) (n div 256)"
  using le_bytes.simps(2) [of "pred_numeral k" n]
  by (simp only: numeral_eq_Suc [of k, symmetric])

lemma length_le_bytes: "length (le_bytes w n) = w"
  by (induction w arbitrary: n) simp_all

lemma sha_schedule_numeral:
  "sha_schedule (numeral k) ws =
     sha_schedule (pred_numeral k)
       (add32 (add32 (add32 (ssig1 (ws ! 1)) (ws ! 6)) (ssig0 (ws ! 14))) (ws ! 15) # ws)"
  using sha_schedule.simps(2) [of "pred_numeral k" ws]
  by (simp only: numeral_eq_Suc [of k, symmetric])

lemma sha_blocks_numeral:
  "sha_blocks (numeral k) bs st =
     sha_blocks (pred_numeral k) (drop 64 bs) (sha_compress (take 64 bs) st)"
  using sha_blocks.simps(2) [of "pred_numeral k" bs st]
  by (simp only: numeral_eq_Suc [of k, symmetric])

lemma sha_blocks_1:
  "sha_blocks 1 bs st = sha_compress (take 64 bs) st"
  using sha_blocks.simps(2) [of 0 bs st] by simp

lemma replicate_numeral_byte:
  "replicate (numeral k) (x::byte) = x # replicate (pred_numeral k) x"
  using replicate.simps(2) [of "pred_numeral k" x]
  by (simp only: numeral_eq_Suc [of k, symmetric])

lemma be_bytes_4: "be_bytes 4 n =
  [of_nat (n div 16777216 mod 256), of_nat (n div 65536 mod 256), of_nat (n div 256 mod 256), of_nat (n mod 256)]"
  by (simp add: be_bytes_def upt_conv_Cons)

lemma be_bytes_8: "be_bytes 8 n =
  [of_nat (n div 72057594037927936 mod 256), of_nat (n div 281474976710656 mod 256),
   of_nat (n div 1099511627776 mod 256), of_nat (n div 4294967296 mod 256),
   of_nat (n div 16777216 mod 256), of_nat (n div 65536 mod 256), of_nat (n div 256 mod 256), of_nat (n mod 256)]"
  by (simp add: be_bytes_def upt_conv_Cons)

lemmas sha_eval =
  sha256_def sha_pad_def be_bytes_4 be_bytes_8 sha_compress_def
  sha_schedule_numeral sha_blocks_numeral sha_blocks_1
  K256_def H256_def bsig0_def bsig1_def ssig0_def ssig1_def Ch_def Maj_def rotr_def shr_def
  add32_def not32_def replicate_numeral_byte

lemma length_sha_words: "length (sha_words st) = 8"
  by (cases st rule: sha_words.cases) simp

lemma length_be_bytes: "length (be_bytes w n) = w"
  by (simp add: be_bytes_def)

lemma length_concat_be_bytes: "length (concat (map (be_bytes 4) ws)) = 4 * length ws"
  by (induction ws) (simp_all add: length_be_bytes)

lemma length_sha256: "length (sha256 m) = 32"
  by (simp add: sha256_def length_concat_be_bytes length_sha_words)

lemma length_hash256: "length (hash256 s) = 32"
  by (simp add: hash256_def length_sha256)

lemma length_checksum: "length (take 4 (hash256 s)) = 4"
  by (simp add: length_hash256)

subsection \<open>Values of the double hash\<close>

text \<open>
  The hash of the empty payload, whose first four bytes \<open>5d f6 e0 e2\<close> are the checksum
  of the \<open>verack\<close> frame of \<open>NetworkEnvelopeTest\<close>, and the hashes of the two
  four-byte payloads \<open>13 a0 4e 0e\<close> and \<open>13 a0 4f 0e\<close>, which differ in one bit, and
  of \<open>13 a0 4e 0f\<close>, which differs from the first in another bit.
\<close>

lemma sha256_empty:
  "sha256
    [] =
    ([0xe3, 0xb0, 0xc4, 0x42, 0x98, 0xfc, 0x1c, 0x14]
     @ [0x9a, 0xfb, 0xf4, 0xc8, 0x99, 0x6f, 0xb9, 0x24]
     @ [0x27, 0xae, 0x41, 0xe4, 0x64, 0x9b, 0x93, 0x4c]
     @ [0xa4, 0x95, 0x99, 0x1b, 0x78, 0x52, 0xb8, 0x55])"
  by (simp add: sha_eval)

lemma sha256_empty_twice:
  "sha256
    ([0xe3, 0xb0, 0xc4, 0x42, 0x98, 0xfc, 0x1c, 0x14]
     @ [0x9a, 0xfb, 0xf4, 0xc8, 0x99, 0x6f, 0xb9, 0x24]
     @ [0x27, 0xae, 0x41, 0xe4, 0x64, 0x9b, 0x93, 0x4c]
     @ [0xa4, 0x95, 0x99, 0x1b, 0x78, 0x52, 0xb8, 0x55]) =
    ([0x5d, 0xf6, 0xe0, 0xe2, 0x76, 0x13, 0x59, 0xd3]
     @ [0x0a, 0x82, 0x75, 0x05, 0x8e, 0x29, 0x9f, 0xcc]
     @ [0x03, 0x81, 0x53, 0x45, 0x45, 0xf5, 0x5c, 0xf4]
     @ [0x3e, 0x41, 0x98, 0x3f, 0x5d, 0x4c, 0x94, 0x56])"
  by (simp add: sha_eval)

lemma sha256_payload_a:
  "sha256
    [0x13, 0xa0, 0x4e, 0x0e] =
    ([0x66, 0x14, 0xe9, 0x7a, 0x78, 0xc7, 0x40, 0x6b]
     @ [0x0c, 0xd6, 0xc5, 0x42, 0xeb, 0xdd, 0xcb, 0x3f]
     @ [0xed, 0x14, 0x92, 0x01, 0x3c, 0x3f, 0xb0, 0xc1]
     @ [0xee, 0x2b, 0x34, 0x9f, 0x4e, 0x8a, 0xd0, 0x6b])"
  by (simp add: sha_eval)

lemma sha256_payload_a_twice:
  "sha256
    ([0x66, 0x14, 0xe9, 0x7a, 0x78, 0xc7, 0x40, 0x6b]
     @ [0x0c, 0xd6, 0xc5, 0x42, 0xeb, 0xdd, 0xcb, 0x3f]
     @ [0xed, 0x14, 0x92, 0x01, 0x3c, 0x3f, 0xb0, 0xc1]
     @ [0xee, 0x2b, 0x34, 0x9f, 0x4e, 0x8a, 0xd0, 0x6b]) =
    ([0x51, 0x8b, 0x10, 0x6d, 0x1d, 0xb0, 0xac, 0xda]
     @ [0x63, 0xce, 0x1d, 0x1a, 0x5e, 0x64, 0xa3, 0x26]
     @ [0x22, 0x33, 0x81, 0xc9, 0x31, 0x57, 0x81, 0xa3]
     @ [0xb5, 0xe8, 0xeb, 0x07, 0x4d, 0x18, 0x4e, 0x61])"
  by (simp add: sha_eval)

lemma sha256_payload_b:
  "sha256
    [0x13, 0xa0, 0x4f, 0x0e] =
    ([0xe2, 0x6d, 0x54, 0x41, 0x98, 0x10, 0x38, 0x9b]
     @ [0x84, 0x66, 0x3f, 0xc1, 0xe6, 0x85, 0x1f, 0x40]
     @ [0x22, 0x87, 0x7d, 0x1e, 0xc5, 0xaa, 0x98, 0x7a]
     @ [0x12, 0x8e, 0xf5, 0xc7, 0xbe, 0x9b, 0x81, 0x25])"
  by (simp add: sha_eval)

lemma sha256_payload_b_twice:
  "sha256
    ([0xe2, 0x6d, 0x54, 0x41, 0x98, 0x10, 0x38, 0x9b]
     @ [0x84, 0x66, 0x3f, 0xc1, 0xe6, 0x85, 0x1f, 0x40]
     @ [0x22, 0x87, 0x7d, 0x1e, 0xc5, 0xaa, 0x98, 0x7a]
     @ [0x12, 0x8e, 0xf5, 0xc7, 0xbe, 0x9b, 0x81, 0x25]) =
    ([0x51, 0x8b, 0x10, 0x6d, 0xea, 0x7f, 0xa4, 0x5d]
     @ [0xfb, 0x32, 0xa1, 0x07, 0x78, 0x8d, 0x43, 0xda]
     @ [0x66, 0x82, 0x5b, 0x2a, 0xa1, 0xfb, 0x49, 0x5f]
     @ [0x49, 0x31, 0xb7, 0xbd, 0x26, 0x15, 0xc4, 0xa9])"
  by (simp add: sha_eval)

lemma sha256_payload_c:
  "sha256
    [0x13, 0xa0, 0x4e, 0x0f] =
    ([0xc8, 0x20, 0xca, 0x20, 0x13, 0xd2, 0x36, 0xb3]
     @ [0x8c, 0x48, 0x18, 0xb8, 0x0b, 0x26, 0x84, 0xd7]
     @ [0x12, 0x0e, 0xf4, 0xd0, 0xba, 0x02, 0x49, 0x70]
     @ [0x31, 0x92, 0x81, 0xb7, 0xd8, 0xbc, 0x58, 0xf0])"
  by (simp add: sha_eval)

lemma sha256_payload_c_twice:
  "sha256
    ([0xc8, 0x20, 0xca, 0x20, 0x13, 0xd2, 0x36, 0xb3]
     @ [0x8c, 0x48, 0x18, 0xb8, 0x0b, 0x26, 0x84, 0xd7]
     @ [0x12, 0x0e, 0xf4, 0xd0, 0xba, 0x02, 0x49, 0x70]
     @ [0x31, 0x92, 0x81, 0xb7, 0xd8, 0xbc, 0x58, 0xf0]) =
    ([0x8c, 0x50, 0x9b, 0xfc, 0x32, 0xc4, 0x42, 0x8b]
     @ [0x0d, 0xb3, 0x1e, 0x3a, 0xc7, 0x99, 0x14, 0x39]
     @ [0xcf, 0x2d, 0xb8, 0x73, 0xaa, 0xca, 0x29, 0x7c]
     @ [0x83, 0x48, 0xc9, 0xbd, 0x45, 0x12, 0x16, 0x36])"
  by (simp add: sha_eval)

lemma hash256_empty:
  "hash256 [] =
    ([0x5d, 0xf6, 0xe0, 0xe2, 0x76, 0x13, 0x59, 0xd3]
     @ [0x0a, 0x82, 0x75, 0x05, 0x8e, 0x29, 0x9f, 0xcc]
     @ [0x03, 0x81, 0x53, 0x45, 0x45, 0xf5, 0x5c, 0xf4]
     @ [0x3e, 0x41, 0x98, 0x3f, 0x5d, 0x4c, 0x94, 0x56])"
  by (simp only: hash256_def sha256_empty sha256_empty_twice)

lemma hash256_payload_a:
  "hash256 [0x13, 0xa0, 0x4e, 0x0e] =
    ([0x51, 0x8b, 0x10, 0x6d, 0x1d, 0xb0, 0xac, 0xda]
     @ [0x63, 0xce, 0x1d, 0x1a, 0x5e, 0x64, 0xa3, 0x26]
     @ [0x22, 0x33, 0x81, 0xc9, 0x31, 0x57, 0x81, 0xa3]
     @ [0xb5, 0xe8, 0xeb, 0x07, 0x4d, 0x18, 0x4e, 0x61])"
  by (simp only: hash256_def sha256_payload_a sha256_payload_a_twice)

lemma hash256_payload_b:
  "hash256 [0x13, 0xa0, 0x4f, 0x0e] =
    ([0x51, 0x8b, 0x10, 0x6d, 0xea, 0x7f, 0xa4, 0x5d]
     @ [0xfb, 0x32, 0xa1, 0x07, 0x78, 0x8d, 0x43, 0xda]
     @ [0x66, 0x82, 0x5b, 0x2a, 0xa1, 0xfb, 0x49, 0x5f]
     @ [0x49, 0x31, 0xb7, 0xbd, 0x26, 0x15, 0xc4, 0xa9])"
  by (simp only: hash256_def sha256_payload_b sha256_payload_b_twice)

lemma hash256_payload_c:
  "hash256 [0x13, 0xa0, 0x4e, 0x0f] =
    ([0x8c, 0x50, 0x9b, 0xfc, 0x32, 0xc4, 0x42, 0x8b]
     @ [0x0d, 0xb3, 0x1e, 0x3a, 0xc7, 0x99, 0x14, 0x39]
     @ [0xcf, 0x2d, 0xb8, 0x73, 0xaa, 0xca, 0x29, 0x7c]
     @ [0x83, 0x48, 0xc9, 0xbd, 0x45, 0x12, 0x16, 0x36])"
  by (simp only: hash256_def sha256_payload_c sha256_payload_c_twice)

lemma checksum_empty: "take 4 (hash256 []) = [0x5d, 0xf6, 0xe0, 0xe2]"
  by (simp add: hash256_empty)

lemma checksum_payload_a: "take 4 (hash256 [0x13, 0xa0, 0x4e, 0x0e]) = [0x51, 0x8b, 0x10, 0x6d]"
  by (simp add: hash256_payload_a)

lemma checksum_payload_b: "take 4 (hash256 [0x13, 0xa0, 0x4f, 0x0e]) = [0x51, 0x8b, 0x10, 0x6d]"
  by (simp add: hash256_payload_b)

lemma checksum_payload_c: "take 4 (hash256 [0x13, 0xa0, 0x4e, 0x0f]) = [0x8c, 0x50, 0x9b, 0xfc]"
  by (simp add: hash256_payload_c)

lemma MAGIC_length: "MAGIC network = Some m \<Longrightarrow> length m = 4"
  by (auto simp: MAGIC_def split: if_splits)

lemma little_endian_to_int_bound: "little_endian_to_int bs < 256 ^ length bs"
proof (induction bs)
  case Nil
  then show ?case by simp
next
  case (Cons b bs)
  have "unat b < 256" using unsigned_less [of b, where ?'a = nat] by simp
  with Cons show ?case by simp
qed

lemma byte_256: "(256 :: byte) = 0"
  by simp

lemma byte_of_nat_add: "(of_nat (unat b + 256 * n) :: byte) = b"
  by (simp add: byte_256)

lemma le_bytes_little_endian_to_int:
  "le_bytes (length bs) (little_endian_to_int bs) = bs"
proof (induction bs)
  case Nil
  then show ?case by simp
next
  case (Cons b bs)
  have "unat b < 256" using unsigned_less [of b, where ?'a = nat] by simp
  then have "(unat b + 256 * little_endian_to_int bs) div 256 = little_endian_to_int bs"
    by simp
  with Cons show ?case
    by (simp add: byte_256)
qed

lemma little_endian_to_int_le_bytes:
  "n < 256 ^ w \<Longrightarrow> little_endian_to_int (le_bytes w n) = n"
proof (induction w arbitrary: n)
  case 0
  then show ?case by simp
next
  case (Suc w)
  have "n div 256 < 256 ^ w"
    using Suc.prems by (simp add: less_mult_imp_div_less mult.commute)
  then have ih: "little_endian_to_int (le_bytes w (n div 256)) = n div 256"
    by (rule Suc.IH)
  have "unat (of_nat n :: byte) = n mod 256"
    by (simp add: unat_of_nat)
  with ih show ?case by simp
qed

lemma dropWhile_zeros:
  "dropWhile (\<lambda>b. b = (0::byte)) (replicate k 0 @ ys) = dropWhile (\<lambda>b. b = 0) ys"
  by (induction k) simp_all

lemma strip_append_zeros: "strip 0 (c @ replicate k 0) = strip 0 c"
proof (cases "\<forall>x\<in>set c. x = 0")
  case True
  then have a: "dropWhile (\<lambda>b. b = 0) (c @ replicate k 0) = []"
    by (simp add: dropWhile_eq_Nil_conv)
  from True have b: "dropWhile (\<lambda>b. b = 0) c = []"
    by (simp add: dropWhile_eq_Nil_conv)
  show ?thesis
    unfolding strip_def a b by simp
next
  case False
  then obtain x where x: "x \<in> set c" "x \<noteq> 0" by blast
  then have "dropWhile (\<lambda>b. b = 0) (c @ replicate k 0)
             = dropWhile (\<lambda>b. b = 0) c @ replicate k 0"
    by (simp add: dropWhile_append1)
  then show ?thesis
    by (simp add: strip_def dropWhile_zeros)
qed

lemma parse_layout:
  assumes m: "MAGIC network = Some m"
    and f: "length field = 12"
    and l: "length len = 4"
    and c: "ck = take 4 (hash256 p)"
    and n: "little_endian_to_int len = length p"
  shows "NetworkEnvelope_parse (m @ field @ len @ ck @ p @ rest) network
         = Inr (\<lparr>command = strip 0 field, payload = p, magic = m\<rparr>, rest)"
proof -
  have lm: "length m = 4" using m by (rule MAGIC_length)
  then have ne: "m \<noteq> []" by auto
  have lc: "length ck = 4" using c by (simp add: length_hash256)
  show ?thesis
    using m ne lm f l lc n c
    by (simp add: NetworkEnvelope_parse_def read_def NetworkEnvelope_init_def)
qed

lemma int_to_little_endian_length:
  "n < 2 ^ 32 \<Longrightarrow> int_to_little_endian (int n) 4 = Inr (le_bytes 4 n)"
  by (simp add: int_to_little_endian_def)

lemma serialize_layout:
  assumes "length (payload e) < 2 ^ 32"
  shows "NetworkEnvelope_serialize e
         = Inr (magic e @ (command e @ replicate (12 - length (command e)) 0)
                @ le_bytes 4 (length (payload e)) @ take 4 (hash256 (payload e))
                @ payload e)"
proof -
  have "nat (12 - int (length (command e))) = 12 - length (command e)"
    by simp
  with assms show ?thesis
    by (simp add: NetworkEnvelope_serialize_def int_to_little_endian_length)
qed

lemma parse_serialize:
  assumes m: "MAGIC network = Some (magic e)"
    and c: "length (command e) \<le> 12"
    and s: "strip 0 (command e) = command e"
    and p: "length (payload e) < 2 ^ 32"
  shows "\<exists>bs. NetworkEnvelope_serialize e = Inr bs
              \<and> NetworkEnvelope_parse (bs @ rest) network = Inr (e, rest)"
proof -
  let ?field = "command e @ replicate (12 - length (command e)) 0"
  let ?len = "le_bytes 4 (length (payload e))"
  let ?ck = "take 4 (hash256 (payload e))"
  have f: "length ?field = 12" using c by simp
  have l: "length ?len = 4" by (simp add: length_le_bytes)
  have n: "little_endian_to_int ?len = length (payload e)"
    using p by (simp add: little_endian_to_int_le_bytes)
  have "NetworkEnvelope_parse (magic e @ ?field @ ?len @ ?ck @ payload e @ rest) network
        = Inr (\<lparr>command = strip 0 ?field, payload = payload e, magic = magic e\<rparr>, rest)"
    using m f l refl n by (rule parse_layout)
  moreover have "strip 0 ?field = command e"
    using s by (simp add: strip_append_zeros)
  ultimately show ?thesis
    using serialize_layout [OF p] by simp
qed

lemma default_nonce_in_range:
  assumes "draw \<in> randint 0 (2 ^ 64)" and "draw \<noteq> 2 ^ 64"
  shows "\<exists>n. VersionMessage_nonce None draw = Inr n \<and> length n = 8"
  using assms
  by (auto simp: randint_def VersionMessage_nonce_def int_to_little_endian_def length_le_bytes)

lemma PingMessage_roundtrip:
  "length nonce = 8 \<Longrightarrow>
     message_serialize (Ping nonce) = Inr nonce
     \<and> cls_parse PingMessage_class (nonce @ rest) None = Inr (Ping nonce)"
  by (simp add: PingMessage_class_def PingMessage_parse_def read_def)

lemma PongMessage_serialize: "message_serialize (Pong nonce) = Inr nonce"
  by simp

lemma serialize_total:
  "(\<exists>bs. NetworkEnvelope_serialize e = Inr bs) \<longleftrightarrow> length (payload e) < 2 ^ 32"
  by (auto simp: NetworkEnvelope_serialize_def int_to_little_endian_def split: sum.splits)

lemma MAGIC_mainnet: "MAGIC ''mainnet'' = Some [0xf9, 0xbe, 0xb4, 0xd9]"
  by (simp add: MAGIC_def)

lemma le_bytes_4_0: "le_bytes 4 0 = [0, 0, 0, 0]"
  by (simp add: le_bytes_numeral)



lemma frame_split:
  "take 4 bs @ take 12 (drop 4 bs) @ take 4 (drop 16 bs) @ take 4 (drop 20 bs) @ drop 24 bs
   = bs"
proof -
  have a: "take 16 bs = take 4 bs @ take 12 (drop 4 bs)"
    using take_add [of 4 12 bs] by simp
  have b: "take 20 bs = take 16 bs @ take 4 (drop 16 bs)"
    using take_add [of 16 4 bs] by simp
  have c: "take 24 bs = take 20 bs @ take 4 (drop 20 bs)"
    using take_add [of 20 4 bs] by simp
  have "take 24 bs @ drop 24 bs = bs" by simp
  then show ?thesis unfolding c b a by simp
qed

lemma serialize_parse:
  assumes wf: "well_formed_frame bs network"
  shows "\<exists>e. NetworkEnvelope_parse bs network = Inr (e, [])
            \<and> NetworkEnvelope_serialize e = Inr bs"
proof -
  let ?m = "take 4 bs" and ?field = "take 12 (drop 4 bs)" and ?len = "take 4 (drop 16 bs)"
  let ?ck = "take 4 (drop 20 bs)" and ?p = "drop 24 bs"
  let ?e = "\<lparr>command = strip 0 ?field, payload = ?p, magic = ?m\<rparr>"
  from wf have l24: "24 \<le> length bs"
    and m: "MAGIC network = Some ?m"
    and pad: "strip 0 ?field @ replicate (12 - length (strip 0 ?field)) 0 = ?field"
    and n: "little_endian_to_int ?len = length ?p"
    and ck: "?ck = take 4 (hash256 ?p)"
    by (simp_all add: well_formed_frame_def)
  have f: "length ?field = 12" using l24 by simp
  have l: "length ?len = 4" using l24 by simp
  have "NetworkEnvelope_parse (?m @ ?field @ ?len @ ?ck @ ?p @ []) network = Inr (?e, [])"
    using m f l ck n by (rule parse_layout)
  then have parse: "NetworkEnvelope_parse bs network = Inr (?e, [])"
    by (simp add: frame_split)
  have "little_endian_to_int ?len < 256 ^ length ?len"
    by (rule little_endian_to_int_bound)
  with n l have p: "length (payload ?e) < 2 ^ 32" by simp
  have "le_bytes (length ?len) (little_endian_to_int ?len) = ?len"
    by (rule le_bytes_little_endian_to_int)
  with n l have len: "le_bytes 4 (length ?p) = ?len" by simp
  have "NetworkEnvelope_serialize ?e = Inr (?m @ ?field @ ?len @ ?ck @ ?p)"
    using serialize_layout [OF p] pad len ck by simp
  then have "NetworkEnvelope_serialize ?e = Inr bs"
    by (simp add: frame_split)
  with parse show ?thesis by blast
qed

lemma strip_verack_field:
  "strip 0 [0x76, 0x65, 0x72, 0x61, 0x63, 0x6b, 0, 0, 0, 0, 0, 0] = verack_command"
  by (simp add: strip_def verack_command_def)

lemma strip_verack_command: "strip 0 verack_command = verack_command"
  by (simp add: strip_def verack_command_def)

lemma well_formed_verack_frame: "well_formed_frame verack_frame ''mainnet''"
  by (simp add: well_formed_frame_def verack_frame_def MAGIC_mainnet strip_verack_field
      verack_command_def checksum_empty replicate_numeral_byte)

lemma parse_verack_frame:
  "NetworkEnvelope_parse verack_frame ''mainnet''
   = Inr (\<lparr>command = verack_command, payload = [], magic = [0xf9, 0xbe, 0xb4, 0xd9]\<rparr>, [])"
  by (simp add: NetworkEnvelope_parse_def verack_frame_def read_def MAGIC_mainnet
      checksum_empty strip_verack_field NetworkEnvelope_init_def)

lemma serialize_verack:
  "NetworkEnvelope_serialize
     \<lparr>command = verack_command, payload = [], magic = [0xf9, 0xbe, 0xb4, 0xd9]\<rparr>
   = Inr verack_frame"
  by (simp add: NetworkEnvelope_serialize_def int_to_little_endian_def le_bytes_4_0
      checksum_empty verack_command_def verack_frame_def replicate_numeral_byte)

lemma parse_checksum:
  assumes "NetworkEnvelope_parse s network = Inr (envelope, rest)"
  shows "take 4 (drop 20 s) = take 4 (hash256 (payload envelope))"
  using assms
  by (auto simp: NetworkEnvelope_parse_def read_def NetworkEnvelope_init_def
           split: if_splits option.splits)

lemma parse_layout_mismatch:
  assumes m: "MAGIC network = Some m"
    and f: "length field = 12"
    and l: "length len = 4"
    and c: "length ck = 4"
    and n: "little_endian_to_int len = length p"
    and d: "ck \<noteq> take 4 (hash256 p)"
  shows "NetworkEnvelope_parse (m @ field @ len @ ck @ p @ rest) network
         = Inl (RuntimeError ''checksum does not match'')"
proof -
  have lm: "length m = 4" using m by (rule MAGIC_length)
  then have ne: "m \<noteq> []" by auto
  show ?thesis
    using m ne lm f l c n d
    by (simp add: NetworkEnvelope_parse_def read_def)
qed

lemma nth_payload:
  assumes "length a = 4" and "length b = 12" and "length c = 4" and "length d = 4"
  shows "(a @ b @ c @ d @ p) ! (24 + j) = p ! j"
  using assms by (simp add: nth_append)

lemma update_payload:
  assumes "length a = 4" and "length b = 12" and "length c = 4" and "length d = 4"
  shows "(a @ b @ c @ d @ p)[24 + j := x] = a @ b @ c @ d @ p[j := x]"
  using assms by (simp add: list_update_append)

lemma serialize_collision_a:
  "NetworkEnvelope_serialize
     \<lparr>command = ping_command, payload = [0x13, 0xa0, 0x4e, 0x0e],
      magic = [0xf9, 0xbe, 0xb4, 0xd9]\<rparr>
   = Inr collision_frame_a"
  by (simp add: NetworkEnvelope_serialize_def int_to_little_endian_def le_bytes_numeral
      checksum_payload_a ping_command_def collision_frame_a_def replicate_numeral_byte)

lemma flip_byte_4e_bit0: "flip_bit 0 (0x4e :: byte) = 0x4f"
  by (simp add: flip_bit_eq_xor)

lemma flip_byte_0e_bit0: "flip_bit 0 (0x0e :: byte) = 0x0f"
  by (simp add: flip_bit_eq_xor)

section \<open>The receive loop\<close>

text \<open>
  A successful \<open>NetworkEnvelope.parse\<close> consumes at least the four bytes of the magic,
  and sending does not touch the inbound stream: the loop of \<open>wait_for\<close> ends on every
  finite stream, with a result or with the exception of \<open>read\<close> on the exhausted stream.
\<close>

lemma parse_consumes:
  assumes "NetworkEnvelope_parse s network = Inr (envelope, rest)"
  shows "length rest < length s"
proof -
  obtain expected where m: "MAGIC network = Some expected" and t: "take 4 s = expected"
    using assms
    by (auto simp: NetworkEnvelope_parse_def read_def split: if_splits option.splits)
  have "length expected = 4" using m by (rule MAGIC_length)
  with t have l: "4 \<le> length s" by (metis length_take min.cobounded1 min_def nat_le_linear)
  have "rest = drop (little_endian_to_int (take 4 (drop 16 s))) (drop 24 s)"
    using assms
    by (auto simp: NetworkEnvelope_parse_def read_def NetworkEnvelope_init_def add.commute
             split: if_splits option.splits)
  with l show ?thesis by simp
qed

lemma send_stream: "send node m = Inr node' \<Longrightarrow> stream node' = stream node"
  by (auto simp: send_def split: sum.splits)

lemma respond_stream: "respond node envelope = Inr node' \<Longrightarrow> stream node' = stream node"
  by (auto simp: respond_def send_stream split: if_splits)

lemma node_read_consumes:
  "node_read node = Inr (envelope, node') \<Longrightarrow> length (stream node') < length (stream node)"
  by (auto simp: node_read_def parse_consumes split: sum.splits)

text \<open>
  \<open>SimpleNode.wait_for\<close>.  \<open>command\<close> starts as \<open>None\<close>, which is no key of the
  dictionary, so the body runs at least once: read, reply to \<open>version\<close> or \<open>ping\<close>,
  then test the command.
\<close>

function wait_for :: "'m message_class list \<Rightarrow> SimpleNode \<Rightarrow> error + 'm \<times> SimpleNode" where
  "wait_for message_classes node =
     (case node_read node of
        Inl e \<Rightarrow> Inl e
      | Inr (envelope, node1) \<Rightarrow>
          (case respond node1 envelope of
             Inl e \<Rightarrow> Inl e
           | Inr node2 \<Rightarrow>
               (case command_to_class message_classes (command envelope) of
                  None \<Rightarrow> wait_for message_classes node2
                | Some cls \<Rightarrow>
                    (case cls_parse cls (payload envelope)
                            (if cls_define_network cls then Some (node_network node2) else None) of
                       Inl e \<Rightarrow> Inl e
                     | Inr m \<Rightarrow> Inr (m, node2)))))"
  by pat_completeness auto
termination
proof (relation "measure (\<lambda>(message_classes, node). length (stream node))")
  show "wf (measure (\<lambda>(message_classes :: 'm message_class list, node). length (stream node)))"
    by simp
next
  fix message_classes :: "'m message_class list" and node x2 envelope node1 node2
  assume "node_read node = Inr x2" and "(envelope, node1) = x2"
    and "respond node1 envelope = Inr node2"
  then have "length (stream node2) < length (stream node)"
    using node_read_consumes [of node envelope node1] respond_stream [of node1 envelope node2]
    by simp
  then show "((message_classes, node2), (message_classes, node))
             \<in> measure (\<lambda>(message_classes, node). length (stream node))"
    by simp
qed

text \<open>The equation of the loop is unfolded by hand, one iteration at a time.\<close>

declare wait_for.simps [simp del]

lemma parse_frame_of:
  assumes m: "MAGIC network = Some mg" and v: "valid_envelope mg e"
  shows "NetworkEnvelope_parse (frame_of e @ rest) network = Inr (e, rest)"
proof -
  from m v have "MAGIC network = Some (magic e)" by (simp add: valid_envelope_def)
  from parse_serialize [OF this, of rest] v show ?thesis
    by (auto simp: valid_envelope_def frame_of_def)
qed

lemma send_frame_of:
  assumes m: "MAGIC (node_network node) = Some mg"
    and s: "message_serialize msg = Inr pl"
    and p: "length pl < 2 ^ 32"
  shows "send node msg
         = Inr (node\<lparr>sent := sent node
                  @ [frame_of \<lparr>command = message_command msg, payload = pl, magic = mg\<rparr>]\<rparr>)"
proof -
  let ?e = "\<lparr>command = message_command msg, payload = pl, magic = mg\<rparr>"
  have "length (payload ?e) < 2 ^ 32" using p by simp
  from serialize_layout [OF this] have "NetworkEnvelope_serialize ?e = Inr (frame_of ?e)"
    by (simp add: frame_of_def)
  with m s show ?thesis
    by (simp add: send_def NetworkEnvelope_init_def)
qed

lemma respond_replies:
  assumes m: "MAGIC (node_network node) = Some mg"
    and p: "length (payload envelope) < 2 ^ 32"
  shows "respond node envelope = Inr (node\<lparr>sent := sent node @ replies mg envelope\<rparr>)"
proof -
  have a: "send node VerAck
        = Inr (node\<lparr>sent := sent node
                @ [frame_of \<lparr>command = verack_command, payload = [], magic = mg\<rparr>]\<rparr>)"
    using send_frame_of [OF m, of VerAck "[]"] by simp
  have b: "send node (Pong (payload envelope))
        = Inr (node\<lparr>sent := sent node
                @ [frame_of \<lparr>command = pong_command, payload = payload envelope,
                             magic = mg\<rparr>]\<rparr>)"
    using send_frame_of [OF m, of "Pong (payload envelope)" "payload envelope"] p by simp
  show ?thesis
    by (simp add: respond_def replies_def a b)
qed

lemma wait_for_next:
  assumes "node_read node = Inr (envelope, node1)"
    and "respond node1 envelope = Inr node2"
    and "command_to_class message_classes (command envelope) = None"
  shows "wait_for message_classes node = wait_for message_classes node2"
  using assms by (subst wait_for.simps) simp

lemma wait_for_last:
  assumes "node_read node = Inr (envelope, node1)"
    and "respond node1 envelope = Inr node2"
    and "command_to_class message_classes (command envelope) = Some cls"
  shows "wait_for message_classes node
         = (case cls_parse cls (payload envelope)
                   (if cls_define_network cls then Some (node_network node2) else None) of
              Inl err \<Rightarrow> Inl err
            | Inr msg \<Rightarrow> Inr (msg, node2))"
  using assms by (subst wait_for.simps) simp

lemma wait_for_trace:
  assumes m: "MAGIC (node_network node) = Some mg"
    and es: "\<forall>x\<in>set es. valid_envelope mg x
                       \<and> command_to_class message_classes (command x) = None"
    and e: "valid_envelope mg e"
    and c: "command_to_class message_classes (command e) = Some cls"
    and st: "stream node = concat (map frame_of es) @ frame_of e @ rest"
  shows "wait_for message_classes node
         = (case cls_parse cls (payload e)
                   (if cls_define_network cls then Some (node_network node) else None) of
              Inl err \<Rightarrow> Inl err
            | Inr msg \<Rightarrow>
                Inr (msg, node\<lparr>stream := rest,
                                sent := sent node @ concat (map (replies mg) (es @ [e]))\<rparr>))"
  using m es st
proof (induction es arbitrary: node)
  case Nil
  let ?node1 = "node\<lparr>stream := rest\<rparr>"
  let ?node2 = "?node1\<lparr>sent := sent ?node1 @ replies mg e\<rparr>"
  from Nil have "NetworkEnvelope_parse (stream node) (node_network node) = Inr (e, rest)"
    using parse_frame_of [OF Nil.prems(1) e, of rest] by simp
  then have r: "node_read node = Inr (e, ?node1)"
    by (simp add: node_read_def)
  have p: "length (payload e) < 2 ^ 32" using e by (simp add: valid_envelope_def)
  have "MAGIC (node_network ?node1) = Some mg" using Nil.prems(1) by simp
  from respond_replies [OF this p]
  have q: "respond ?node1 e = Inr ?node2" .
  show ?case
    unfolding wait_for_last [OF r q c] by (simp split: sum.splits)
next
  case (Cons x es)
  let ?rest = "concat (map frame_of es) @ frame_of e @ rest"
  let ?node1 = "node\<lparr>stream := ?rest\<rparr>"
  let ?node2 = "?node1\<lparr>sent := sent ?node1 @ replies mg x\<rparr>"
  have vx: "valid_envelope mg x" and cx: "command_to_class message_classes (command x) = None"
    using Cons.prems(2) by simp_all
  have "stream node = frame_of x @ ?rest" using Cons.prems(3) by simp
  then have "NetworkEnvelope_parse (stream node) (node_network node) = Inr (x, ?rest)"
    using parse_frame_of [OF Cons.prems(1) vx, of ?rest] by simp
  then have r: "node_read node = Inr (x, ?node1)"
    by (simp add: node_read_def)
  have p: "length (payload x) < 2 ^ 32" using vx by (simp add: valid_envelope_def)
  have "MAGIC (node_network ?node1) = Some mg" using Cons.prems(1) by simp
  from respond_replies [OF this p]
  have q: "respond ?node1 x = Inr ?node2" .
  have ih: "wait_for message_classes ?node2
         = (case cls_parse cls (payload e)
                   (if cls_define_network cls then Some (node_network ?node2) else None) of
              Inl err \<Rightarrow> Inl err
            | Inr msg \<Rightarrow>
                Inr (msg, ?node2\<lparr>stream := rest,
                                sent := sent ?node2 @ concat (map (replies mg) (es @ [e]))\<rparr>))"
    using Cons.prems by (intro Cons.IH) simp_all
  show ?case
    unfolding wait_for_next [OF r q cx] ih by (simp split: sum.splits)
qed

lemma wait_for_returns:
  assumes "wait_for message_classes node = Inr (msg, node')"
  shows "\<exists>(envelope :: NetworkEnvelope) cls network.
           command_to_class message_classes (command envelope) = Some cls
           \<and> cls_parse cls (payload envelope) network = Inr msg"
  using assms
proof (induction message_classes node rule: wait_for.induct)
  case (1 message_classes node)
  show ?case
  proof (cases "node_read node")
    case (Inl err)
    with "1.prems" show ?thesis by (subst (asm) wait_for.simps) simp
  next
    case (Inr r)
    then obtain envelope node1 where r: "node_read node = Inr (envelope, node1)"
      by (cases r) simp
    show ?thesis
    proof (cases "respond node1 envelope")
      case (Inl err)
      with "1.prems" r show ?thesis by (subst (asm) wait_for.simps) simp
    next
      case q: (Inr node2)
      show ?thesis
      proof (cases "command_to_class message_classes (command envelope)")
        case None
        from "1.prems" have "wait_for message_classes node2 = Inr (msg, node')"
          unfolding wait_for_next [OF r q None] .
        with "1.IH" [OF r refl q None] show ?thesis .
      next
        case (Some cls)
        from "1.prems" have "cls_parse cls (payload envelope)
                   (if cls_define_network cls then Some (node_network node2) else None)
                 = Inr msg"
          unfolding wait_for_last [OF r q Some] by (auto split: sum.splits if_splits)
        with Some show ?thesis by blast
      qed
    qed
  qed
qed

lemma valid_ping_envelope: "valid_envelope [0xf9, 0xbe, 0xb4, 0xd9] ping_envelope"
  by (simp add: valid_envelope_def ping_envelope_def ping_command_def strip_def)

lemma valid_verack_envelope: "valid_envelope [0xf9, 0xbe, 0xb4, 0xd9] verack_envelope"
  by (simp add: valid_envelope_def verack_envelope_def verack_command_def strip_def)

lemma class_of_ping: "command_to_class [VerAckMessage_class] (command ping_envelope) = None"
  by (simp add: command_to_class_def VerAckMessage_class_def ping_envelope_def
      ping_command_def verack_command_def)

lemma class_of_verack:
  "command_to_class [VerAckMessage_class] (command verack_envelope) = Some VerAckMessage_class"
  by (simp add: command_to_class_def VerAckMessage_class_def verack_envelope_def)

text \<open>
  Modelled from the spec: the class \<open>Tx\<close> of \<open>tx.py\<close> (not part of the sources; the
  spec's "Transaction type: exposes hash()/id() and a parse(stream) -> Tx") is a
  parameter of \<open>is_tx_accepted\<close>: its class as \<open>wait_for\<close> uses it, \<open>hash()\<close> and
  \<open>id()\<close>.  The result is the Python value returned: \<open>Some True\<close> for \<open>True\<close>,
  \<open>None\<close> for \<open>None\<close>, which a function returns when it ends without a
  \<open>return\<close>.
\<close>

definition is_tx_accepted ::
  "'tx message_class \<Rightarrow> ('tx \<Rightarrow> bytes) \<Rightarrow> ('tx \<Rightarrow> string) \<Rightarrow> SimpleNode \<Rightarrow> 'tx
     \<Rightarrow> error + bool option \<times> SimpleNode" where
  "is_tx_accepted Tx tx_hash tx_id node tx_obj =
     (case send node (GetData [(TX_DATA_TYPE, tx_hash tx_obj)]) of
        Inl e \<Rightarrow> Inl e
      | Inr node1 \<Rightarrow>
          (case wait_for [Tx] node1 of
             Inl e \<Rightarrow> Inl e
           | Inr (got_tx, node2) \<Rightarrow>
               if tx_id got_tx = tx_id tx_obj then Inr (Some True, node2)
               else Inr (None, node2)))"

lemma getdata_example: "message_serialize (GetData [(TX_DATA_TYPE, [0x01])]) = Inr [1, 1, 0, 0, 0, 1]"
  by (simp add: GetDataMessage_serialize_def encode_varint_def TX_DATA_TYPE_def
      int_to_little_endian_def le_bytes_numeral)

lemma valid_example_tx_envelope: "valid_envelope [0xf9, 0xbe, 0xb4, 0xd9] example_tx_envelope"
  by (simp add: valid_envelope_def example_tx_envelope_def tx_command_def strip_def)

lemma class_of_tx:
  "command_to_class [example_Tx_class] (command example_tx_envelope) = Some example_Tx_class"
  by (simp add: command_to_class_def example_Tx_class_def example_tx_envelope_def)

lemma is_tx_accepted_example:
  "is_tx_accepted example_Tx_class (\<lambda>tx. tx) hex
     \<lparr>node_network = ''mainnet'', stream = frame_of example_tx_envelope, sent = []\<rparr> [0x01]
   = Inr (None,
          \<lparr>node_network = ''mainnet'', stream = [],
           sent = [frame_of \<lparr>command = getdata_command, payload = [1, 1, 0, 0, 0, 1],
                             magic = [0xf9, 0xbe, 0xb4, 0xd9]\<rparr>]\<rparr>)"
proof -
  let ?getdata = "\<lparr>command = getdata_command, payload = [1, 1, 0, 0, 0, 1],
                   magic = [0xf9, 0xbe, 0xb4, 0xd9 :: byte]\<rparr>"
  let ?node = "\<lparr>node_network = ''mainnet'', stream = frame_of example_tx_envelope, sent = []\<rparr>"
  let ?node1 = "\<lparr>node_network = ''mainnet'', stream = frame_of example_tx_envelope,
                sent = [frame_of ?getdata]\<rparr>"
  let ?node2 = "\<lparr>node_network = ''mainnet'', stream = [], sent = [frame_of ?getdata]\<rparr>"
  have m: "MAGIC (node_network ?node) = Some [0xf9, 0xbe, 0xb4, 0xd9]"
    by (simp add: MAGIC_mainnet)
  have s: "send ?node (GetData [(TX_DATA_TYPE, [0x01])]) = Inr ?node1"
    using send_frame_of [OF m getdata_example] by simp
  have m1: "MAGIC (node_network ?node1) = Some [0xf9, 0xbe, 0xb4, 0xd9]"
    by (simp add: MAGIC_mainnet)
  have es: "\<forall>x\<in>set []. valid_envelope [0xf9, 0xbe, 0xb4, 0xd9] x
              \<and> command_to_class [example_Tx_class] (command x) = None"
    by simp
  have st: "stream ?node1 = concat (map frame_of []) @ frame_of example_tx_envelope @ []"
    by simp
  have w: "wait_for [example_Tx_class] ?node1 = Inr ([0x02], ?node2)"
    using wait_for_trace [OF m1 es valid_example_tx_envelope class_of_tx st]
    by (simp add: example_Tx_class_def example_tx_envelope_def replies_def tx_command_def
        version_command_def ping_command_def)
  have h: "hex [0x02] \<noteq> hex [0x01]"
    by (simp add: hex_def hex_digit_def)
  show ?thesis
    by (simp only: is_tx_accepted_def s w sum.case prod.case h if_False)
qed

section \<open>Claims\<close>

text \<open>
  C1 (as amended): on a network of the table, an envelope with that network's magic, a
  command of at most 12 bytes that neither starts nor ends with a zero byte, and a payload
  shorter than \<open>2 ^ 32\<close> bytes serializes to a frame that parses back to the same
  envelope; and a well-formed frame parses to an envelope that serializes to the same
  frame.
\<close>

theorem C1_envelope_roundtrip:
  assumes "MAGIC network = Some mg"
  shows "(magic e = mg \<and> length (command e) \<le> 12 \<and> strip 0 (command e) = command e
          \<and> length (payload e) < 2 ^ 32
          \<longrightarrow> (\<exists>bs. NetworkEnvelope_serialize e = Inr bs
                    \<and> NetworkEnvelope_parse bs network = Inr (e, [])))
         \<and> (well_formed_frame frame network
          \<longrightarrow> (\<exists>e'. NetworkEnvelope_parse frame network = Inr (e', [])
                    \<and> NetworkEnvelope_serialize e' = Inr frame))"
proof (intro conjI impI)
  assume a: "magic e = mg \<and> length (command e) \<le> 12 \<and> strip 0 (command e) = command e
          \<and> length (payload e) < 2 ^ 32"
  with assms have "MAGIC network = Some (magic e)" by simp
  from parse_serialize [OF this, of "[]"] a
  show "\<exists>bs. NetworkEnvelope_serialize e = Inr bs
             \<and> NetworkEnvelope_parse bs network = Inr (e, [])"
    by simp
next
  assume "well_formed_frame frame network"
  then show "\<exists>e'. NetworkEnvelope_parse frame network = Inr (e', [])
                    \<and> NetworkEnvelope_serialize e' = Inr frame"
    by (rule serialize_parse)
qed

theorem C1_envelope_roundtrip_witness:
  "MAGIC ''mainnet'' = Some [0xf9, 0xbe, 0xb4, 0xd9]
   \<and> NetworkEnvelope_serialize
        \<lparr>command = verack_command, payload = [], magic = [0xf9, 0xbe, 0xb4, 0xd9]\<rparr>
      = Inr verack_frame
   \<and> NetworkEnvelope_parse verack_frame ''mainnet''
      = Inr (\<lparr>command = verack_command, payload = [], magic = [0xf9, 0xbe, 0xb4, 0xd9]\<rparr>, [])
   \<and> well_formed_frame verack_frame ''mainnet''"
  using C1_envelope_roundtrip [OF MAGIC_mainnet,
      of "\<lparr>command = verack_command, payload = [], magic = [0xf9, 0xbe, 0xb4, 0xd9]\<rparr>"
         verack_frame]
  by (simp add: MAGIC_mainnet serialize_verack parse_verack_frame well_formed_verack_frame)

text \<open>
  C1 as stated fails: the envelope with the two-byte command \<open>61 00\<close> has the mainnet
  magic and a command of at most 12 bytes, but its frame parses to an envelope with the
  command \<open>61\<close>: the zero byte of the command is read as padding.
\<close>

theorem C1_envelope_roundtrip_counterexample:
  "MAGIC ''mainnet'' = Some [0xf9, 0xbe, 0xb4, 0xd9]
   \<and> length [0x61, 0x00 :: byte] \<le> 12
   \<and> NetworkEnvelope_serialize
        \<lparr>command = [0x61, 0x00], payload = [], magic = [0xf9, 0xbe, 0xb4, 0xd9]\<rparr>
      = Inr [0xf9, 0xbe, 0xb4, 0xd9, 0x61, 0, 0, 0, 0, 0, 0, 0, 0, 0, 0, 0,
             0, 0, 0, 0, 0x5d, 0xf6, 0xe0, 0xe2]
   \<and> NetworkEnvelope_parse
        [0xf9, 0xbe, 0xb4, 0xd9, 0x61, 0, 0, 0, 0, 0, 0, 0, 0, 0, 0, 0,
         0, 0, 0, 0, 0x5d, 0xf6, 0xe0, 0xe2] ''mainnet''
      = Inr (\<lparr>command = [0x61], payload = [], magic = [0xf9, 0xbe, 0xb4, 0xd9]\<rparr>, [])
   \<and> \<lparr>command = [0x61], payload = [], magic = [0xf9, 0xbe, 0xb4, 0xd9 :: byte]\<rparr>
      \<noteq> \<lparr>command = [0x61, 0x00], payload = [], magic = [0xf9, 0xbe, 0xb4, 0xd9]\<rparr>"
  by (simp add: MAGIC_mainnet NetworkEnvelope_serialize_def int_to_little_endian_def
      le_bytes_4_0 checksum_empty NetworkEnvelope_parse_def read_def strip_def
      NetworkEnvelope_init_def replicate_numeral_byte)

text \<open>
  C2: let the inbound stream hold the frames of envelopes whose commands are not requested,
  then the frame of an envelope whose command is requested.  Then \<open>wait_for\<close> consumes
  all of them, sends for each envelope in turn exactly one \<open>verack\<close> frame if its command
  is \<open>version\<close> and exactly one \<open>pong\<close> frame with the same payload if its command is
  \<open>ping\<close> (requested or not) and nothing otherwise, does not end on an envelope that is
  not requested, and returns what the parser of the requested class makes of the last
  payload.  And whenever \<open>wait_for\<close> returns a message, it is the result of the parser
  of a requested class on an envelope with that class's command.
\<close>

theorem C2_wait_for_dispatch:
  assumes m: "MAGIC (node_network node) = Some mg"
    and es: "\<forall>x\<in>set es. valid_envelope mg x
                       \<and> command_to_class message_classes (command x) = None"
    and e: "valid_envelope mg e"
    and c: "command_to_class message_classes (command e) = Some cls"
    and st: "stream node = concat (map frame_of es) @ frame_of e @ rest"
  shows "wait_for message_classes node
         = (case cls_parse cls (payload e)
                   (if cls_define_network cls then Some (node_network node) else None) of
              Inl err \<Rightarrow> Inl err
            | Inr msg \<Rightarrow>
                Inr (msg, node\<lparr>stream := rest,
                                sent := sent node @ concat (map (replies mg) (es @ [e]))\<rparr>))
         \<and> (\<forall>node0 msg node'.
               wait_for message_classes node0 = Inr (msg, node')
               \<longrightarrow> (\<exists>(envelope :: NetworkEnvelope) cls' network.
                      command_to_class message_classes (command envelope) = Some cls'
                      \<and> cls_parse cls' (payload envelope) network = Inr msg))"
  using wait_for_trace [OF m es e c st] wait_for_returns [of message_classes]
  by blast

theorem C2_wait_for_dispatch_witness:
  "MAGIC ''mainnet'' = Some [0xf9, 0xbe, 0xb4, 0xd9]
   \<and> valid_envelope [0xf9, 0xbe, 0xb4, 0xd9] ping_envelope
   \<and> command_to_class [VerAckMessage_class] (command ping_envelope) = None
   \<and> valid_envelope [0xf9, 0xbe, 0xb4, 0xd9] verack_envelope
   \<and> command_to_class [VerAckMessage_class] (command verack_envelope)
       = Some VerAckMessage_class
   \<and> wait_for [VerAckMessage_class]
        \<lparr>node_network = ''mainnet'',
         stream = frame_of ping_envelope @ frame_of verack_envelope, sent = []\<rparr>
       = Inr (VerAck,
              \<lparr>node_network = ''mainnet'', stream = [],
               sent = [frame_of \<lparr>command = pong_command, payload = [1, 2, 3, 4, 5, 6, 7, 8],
                                 magic = [0xf9, 0xbe, 0xb4, 0xd9]\<rparr>]\<rparr>)"
proof -
  let ?node = "\<lparr>node_network = ''mainnet'',
         stream = frame_of ping_envelope @ frame_of verack_envelope, sent = []\<rparr>"
  have m: "MAGIC (node_network ?node) = Some [0xf9, 0xbe, 0xb4, 0xd9]"
    by (simp add: MAGIC_mainnet)
  have es: "\<forall>x\<in>set [ping_envelope]. valid_envelope [0xf9, 0xbe, 0xb4, 0xd9] x
              \<and> command_to_class [VerAckMessage_class] (command x) = None"
    by (simp add: valid_ping_envelope class_of_ping)
  have st: "stream ?node = concat (map frame_of [ping_envelope]) @ frame_of verack_envelope @ []"
    by simp
  have r: "concat (map (replies [0xf9, 0xbe, 0xb4, 0xd9]) ([ping_envelope] @ [verack_envelope]))
           = [frame_of \<lparr>command = pong_command, payload = [1, 2, 3, 4, 5, 6, 7, 8],
                        magic = [0xf9, 0xbe, 0xb4, 0xd9]\<rparr>]"
    by (simp add: replies_def ping_envelope_def verack_envelope_def ping_command_def
        verack_command_def version_command_def)
  from C2_wait_for_dispatch [OF m es valid_verack_envelope class_of_verack st]
  have "wait_for [VerAckMessage_class] ?node
        = Inr (VerAck, ?node\<lparr>stream := [],
                 sent := sent ?node
                   @ concat (map (replies [0xf9, 0xbe, 0xb4, 0xd9])
                       ([ping_envelope] @ [verack_envelope]))\<rparr>)"
    by (simp add: VerAckMessage_class_def)
  then show ?thesis
    unfolding r
    by (simp add: MAGIC_mainnet valid_ping_envelope class_of_ping valid_verack_envelope
        class_of_verack)
qed

text \<open>
  C3 (as amended): whenever \<open>parse\<close> returns an envelope, the four checksum bytes of the
  frame are the first four bytes of the double hash of the payload; and flipping a bit of
  the payload of a serialized frame makes \<open>parse\<close> raise the checksum error whenever the
  checksum of the changed payload differs from that of the original.
\<close>

theorem C3_checksum:
  assumes m: "MAGIC network = Some (magic e)"
    and c: "length (command e) \<le> 12"
    and s: "NetworkEnvelope_serialize e = Inr frame"
    and j: "j < length (payload e)"
    and i: "i < 8"
  shows "(\<forall>bs envelope rest.
            NetworkEnvelope_parse bs network = Inr (envelope, rest)
            \<longrightarrow> take 4 (drop 20 bs) = take 4 (hash256 (payload envelope)))
         \<and> (take 4 (hash256 ((payload e)[j := flip_bit i (payload e ! j)]))
              \<noteq> take 4 (hash256 (payload e))
            \<longrightarrow> NetworkEnvelope_parse (flip_frame_bit j i frame) network
                = Inl (RuntimeError ''checksum does not match''))"
proof (intro conjI impI allI)
  fix bs envelope rest
  assume "NetworkEnvelope_parse bs network = Inr (envelope, rest)"
  then show "take 4 (drop 20 bs) = take 4 (hash256 (payload envelope))"
    by (rule parse_checksum)
next
  let ?p = "payload e"
  let ?p' = "?p[j := flip_bit i (?p ! j)]"
  let ?field = "command e @ replicate (12 - length (command e)) 0"
  let ?len = "le_bytes 4 (length ?p)"
  let ?ck = "take 4 (hash256 ?p)"
  assume d: "take 4 (hash256 ?p') \<noteq> take 4 (hash256 ?p)"
  have p: "length ?p < 2 ^ 32"
    using s serialize_total [of e] by blast
  have frame: "frame = magic e @ ?field @ ?len @ ?ck @ ?p"
    using serialize_layout [OF p] s by simp
  have lm: "length (magic e) = 4" using m by (rule MAGIC_length)
  have f: "length ?field = 12" using c by simp
  have l: "length ?len = 4" by (simp add: length_le_bytes)
  have k: "length ?ck = 4" by (simp add: length_hash256)
  have n: "little_endian_to_int ?len = length ?p'"
    using p by (simp add: little_endian_to_int_le_bytes)
  have "frame ! (24 + j) = ?p ! j"
    unfolding frame using lm f l k by (rule nth_payload)
  moreover have "frame[24 + j := x] = magic e @ ?field @ ?len @ ?ck @ ?p[j := x]" for x
    unfolding frame using lm f l k by (rule update_payload)
  ultimately have "flip_frame_bit j i frame = magic e @ ?field @ ?len @ ?ck @ ?p' @ []"
    by (simp add: flip_frame_bit_def)
  moreover have "NetworkEnvelope_parse (magic e @ ?field @ ?len @ ?ck @ ?p' @ []) network
                 = Inl (RuntimeError ''checksum does not match'')"
    using m f l k n d [symmetric] by (rule parse_layout_mismatch)
  ultimately show "NetworkEnvelope_parse (flip_frame_bit j i frame) network
                = Inl (RuntimeError ''checksum does not match'')"
    by simp
qed

theorem C3_checksum_witness:
  "MAGIC ''mainnet'' = Some [0xf9, 0xbe, 0xb4, 0xd9]
   \<and> NetworkEnvelope_serialize
        \<lparr>command = ping_command, payload = [0x13, 0xa0, 0x4e, 0x0e],
         magic = [0xf9, 0xbe, 0xb4, 0xd9]\<rparr>
       = Inr collision_frame_a
   \<and> take 4 (hash256 [0x13, 0xa0, 0x4e, 0x0f]) \<noteq> take 4 (hash256 [0x13, 0xa0, 0x4e, 0x0e])
   \<and> NetworkEnvelope_parse (flip_frame_bit 3 0 collision_frame_a) ''mainnet''
       = Inl (RuntimeError ''checksum does not match'')
   \<and> NetworkEnvelope_parse collision_frame_a ''mainnet''
       = Inr (\<lparr>command = ping_command, payload = [0x13, 0xa0, 0x4e, 0x0e],
              magic = [0xf9, 0xbe, 0xb4, 0xd9]\<rparr>, [])
   \<and> take 4 (drop 20 collision_frame_a) = take 4 (hash256 [0x13, 0xa0, 0x4e, 0x0e])"
proof -
  let ?e = "\<lparr>command = ping_command, payload = [0x13, 0xa0, 0x4e, 0x0e],
         magic = [0xf9, 0xbe, 0xb4, 0xd9 :: byte]\<rparr>"
  have m: "MAGIC ''mainnet'' = Some (magic ?e)" by (simp add: MAGIC_mainnet)
  have c: "length (command ?e) \<le> 12" by (simp add: ping_command_def)
  have j: "3 < length (payload ?e)" by simp
  have i: "(0::nat) < 8" by simp
  have d: "take 4 (hash256 [0x13, 0xa0, 0x4e, 0x0f]) \<noteq> take 4 (hash256 [0x13, 0xa0, 0x4e, 0x0e])"
    by (simp add: checksum_payload_a checksum_payload_c)
  have pa: "NetworkEnvelope_parse collision_frame_a ''mainnet'' = Inr (?e, [])"
    by (simp add: NetworkEnvelope_parse_def collision_frame_a_def read_def MAGIC_mainnet
        checksum_payload_a strip_def NetworkEnvelope_init_def ping_command_def)
  from C3_checksum [OF m c serialize_collision_a j i] d pa
  show ?thesis
    by (simp add: MAGIC_mainnet serialize_collision_a flip_byte_0e_bit0)
qed

text \<open>
  C3 as stated fails: the four-byte checksum does not tell the payloads \<open>13 a0 4e 0e\<close>
  and \<open>13 a0 4f 0e\<close> apart.  Flipping bit 0 of the third payload byte of the first frame
  gives the second frame, which \<open>parse\<close> accepts.
\<close>

theorem C3_checksum_counterexample:
  "NetworkEnvelope_serialize
     \<lparr>command = ping_command, payload = [0x13, 0xa0, 0x4e, 0x0e],
      magic = [0xf9, 0xbe, 0xb4, 0xd9]\<rparr>
   = Inr collision_frame_a
   \<and> flip_frame_bit 2 0 collision_frame_a = collision_frame_b
   \<and> NetworkEnvelope_parse collision_frame_b ''mainnet''
       = Inr (\<lparr>command = ping_command, payload = [0x13, 0xa0, 0x4f, 0x0e],
              magic = [0xf9, 0xbe, 0xb4, 0xd9]\<rparr>, [])"
proof -
  have "flip_frame_bit 2 0 collision_frame_a = collision_frame_b"
    by (simp add: flip_frame_bit_def collision_frame_a_def collision_frame_b_def
        flip_byte_4e_bit0)
  moreover have "NetworkEnvelope_parse collision_frame_b ''mainnet''
       = Inr (\<lparr>command = ping_command, payload = [0x13, 0xa0, 0x4f, 0x0e],
              magic = [0xf9, 0xbe, 0xb4, 0xd9]\<rparr>, [])"
    by (simp add: NetworkEnvelope_parse_def collision_frame_b_def read_def MAGIC_mainnet
        checksum_payload_b strip_def NetworkEnvelope_init_def ping_command_def)
  ultimately show ?thesis
    by (simp add: serialize_collision_a)
qed



text \<open>
  C5: a \<open>GetHeadersMessage\<close> built with version 70015, one hash, a 32-byte start block
  and no end block has 32 zero bytes as its end block and serializes to the version as 4
  little-endian bytes (7f 11 01 00), the varint of 1 (01), the start block reversed and
  32 zero bytes, 69 bytes in all.
\<close>

theorem C5_getheaders_serialize:
  assumes "length start = 32"
  shows "\<exists>m. GetHeadersMessage_init 70015 1 (Some start) None = Inr m
           \<and> gh_end_block m = replicate 32 0
           \<and> int_to_little_endian 70015 4 = Inr [0x7f, 0x11, 0x01, 0x00]
           \<and> encode_varint 1 = Inr [0x01]
           \<and> GetHeadersMessage_serialize m
               = Inr ([0x7f, 0x11, 0x01, 0x00] @ [0x01] @ rev start @ replicate 32 0)
           \<and> length ([0x7f, 0x11, 0x01, 0x00] @ [0x01] @ rev start @ replicate 32 (0::byte)) = 69"
proof -
  have v: "int_to_little_endian 70015 4 = Inr [0x7f, 0x11, 0x01, 0x00]"
    by (simp add: int_to_little_endian_def le_bytes_numeral)
  have n: "encode_varint 1 = Inr [0x01]"
    by (simp add: encode_varint_def)
  show ?thesis
    using assms
    by (simp add: GetHeadersMessage_init_def GetHeadersMessage_serialize_def v n)
qed

theorem C5_getheaders_serialize_witness:
  "length test_start_block = 32
   \<and> (\<exists>m. GetHeadersMessage_init 70015 1 (Some test_start_block) None = Inr m
        \<and> GetHeadersMessage_serialize m = Inr
       [0x7f, 0x11, 0x01, 0x00, 0x01, 0xa3, 0x5b, 0xd0, 0xca, 0x2f, 0x4a, 0x88, 0xc4, 0xed, 0xa6, 0xd2,
        0x13, 0xe2, 0x37, 0x8a, 0x57, 0x58, 0xdf, 0xcd, 0x6a, 0xf4, 0x37, 0x12, 0x00, 0x00, 0x00, 0x00,
        0x00, 0x00, 0x00, 0x00, 0x00, 0x00, 0x00, 0x00, 0x00, 0x00, 0x00, 0x00, 0x00, 0x00, 0x00, 0x00,
        0x00, 0x00, 0x00, 0x00, 0x00, 0x00, 0x00, 0x00, 0x00, 0x00, 0x00, 0x00, 0x00, 0x00, 0x00, 0x00,
        0x00, 0x00, 0x00, 0x00, 0x00])"
proof -
  have len: "length test_start_block = 32"
    by (simp add: test_start_block_def)
  from C5_getheaders_serialize [OF len] obtain m where
    m: "GetHeadersMessage_init 70015 1 (Some test_start_block) None = Inr m"
    and s: "GetHeadersMessage_serialize m
            = Inr ([0x7f, 0x11, 0x01, 0x00] @ [0x01] @ rev test_start_block @ replicate 32 0)"
    by blast
  have "[0x7f, 0x11, 0x01, 0x00] @ [0x01] @ rev test_start_block @ replicate 32 (0::byte) =
       [0x7f, 0x11, 0x01, 0x00, 0x01, 0xa3, 0x5b, 0xd0, 0xca, 0x2f, 0x4a, 0x88, 0xc4, 0xed, 0xa6, 0xd2,
        0x13, 0xe2, 0x37, 0x8a, 0x57, 0x58, 0xdf, 0xcd, 0x6a, 0xf4, 0x37, 0x12, 0x00, 0x00, 0x00, 0x00,
        0x00, 0x00, 0x00, 0x00, 0x00, 0x00, 0x00, 0x00, 0x00, 0x00, 0x00, 0x00, 0x00, 0x00, 0x00, 0x00,
        0x00, 0x00, 0x00, 0x00, 0x00, 0x00, 0x00, 0x00, 0x00, 0x00, 0x00, 0x00, 0x00, 0x00, 0x00, 0x00,
        0x00, 0x00, 0x00, 0x00, 0x00]"
    by (simp add: test_start_block_def replicate_numeral_byte)
  with len m s show ?thesis by auto
qed

text \<open>
  C6 (as amended): the 24-byte frame of \<open>NetworkEnvelopeTest\<close>,
  \<open>f9beb4d9 76657261636b000000000000 00000000 5df6e0e2\<close>, parses on mainnet to the
  command \<open>verack\<close> with an empty payload, and the parsed envelope serializes to the same
  24 bytes.
\<close>

theorem C6_verack_frame:
  "length verack_frame = 24
   \<and> NetworkEnvelope_parse verack_frame ''mainnet''
       = Inr (\<lparr>command = verack_command, payload = [], magic = [0xf9, 0xbe, 0xb4, 0xd9]\<rparr>, [])
   \<and> NetworkEnvelope_serialize
        \<lparr>command = verack_command, payload = [], magic = [0xf9, 0xbe, 0xb4, 0xd9]\<rparr>
       = Inr verack_frame"
  by (simp add: parse_verack_frame serialize_verack) (simp add: verack_frame_def)

text \<open>
  C6 as stated fails: the bytes the specification lists are 27, three zero bytes more
  than a frame has; \<open>parse\<close> reads \<open>00 00 00 5d\<close> as the checksum and raises the checksum
  error.
\<close>

theorem C6_scenario_A_counterexample:
  "length scenario_A_frame = 27
   \<and> NetworkEnvelope_parse scenario_A_frame ''mainnet''
       = Inl (RuntimeError ''checksum does not match'')"
  by (simp add: scenario_A_frame_def NetworkEnvelope_parse_def read_def MAGIC_mainnet
      checksum_empty)

text \<open>
  C7: \<open>PongMessage.serialize\<close> returns the nonce, as \<open>PingMessage.serialize\<close> does; but
  the call \<open>PongMessage.parse(stream)\<close> raises \<open>TypeError\<close>, where
  \<open>PingMessage.parse(stream)\<close> returns the message with the 8 bytes read.
\<close>

theorem C7_pong_parse_raises:
  "message_serialize (Pong [1, 2, 3, 4, 5, 6, 7, 8]) = Inr [1, 2, 3, 4, 5, 6, 7, 8]
   \<and> cls_parse PongMessage_class [1, 2, 3, 4, 5, 6, 7, 8] None = Inl TypeError
   \<and> cls_parse PingMessage_class [1, 2, 3, 4, 5, 6, 7, 8] None
       = Inr (Ping [1, 2, 3, 4, 5, 6, 7, 8])
   \<and> message_serialize (Ping [1, 2, 3, 4, 5, 6, 7, 8]) = Inr [1, 2, 3, 4, 5, 6, 7, 8]"
  by (simp add: PongMessage_class_def PongMessage_parse_def PingMessage_class_def
      PingMessage_parse_def read_def)

text \<open>
  C8: \<open>is_tx_accepted\<close> never returns \<open>False\<close>: its result is \<open>True\<close> or \<open>None\<close>.
  In the run where the transaction \<open>01\<close> is asked for and the peer answers with the
  transaction \<open>02\<close>, it sends the \<open>getdata\<close> frame, reads the answer and returns
  \<open>None\<close>.
\<close>

theorem C8_is_tx_accepted_never_False:
  "is_tx_accepted Tx tx_hash tx_id node tx_obj \<noteq> Inr (Some False, node')
   \<and> is_tx_accepted example_Tx_class (\<lambda>tx. tx) hex
        \<lparr>node_network = ''mainnet'', stream = frame_of example_tx_envelope, sent = []\<rparr> [0x01]
      = Inr (None,
             \<lparr>node_network = ''mainnet'', stream = [],
              sent = [frame_of \<lparr>command = getdata_command, payload = [1, 1, 0, 0, 0, 1],
                                magic = [0xf9, 0xbe, 0xb4, 0xd9]\<rparr>]\<rparr>)"
  by (simp add: is_tx_accepted_example) (simp add: is_tx_accepted_def split: sum.splits prod.splits)

text \<open>
  C9: \<open>2 ^ 64\<close> is a value \<open>randint(0, 2**64)\<close> can return; it is not below \<open>2 ^ 64\<close>, and
  the constructor of \<open>VersionMessage\<close> then raises \<open>OverflowError\<close> for the default nonce.
\<close>

theorem C9_default_nonce_overflow:
  "(2 :: int) ^ 64 \<in> randint 0 (2 ^ 64)
   \<and> \<not> ((2 :: int) ^ 64 < 2 ^ 64)
   \<and> VersionMessage_nonce None (2 ^ 64) = Inl OverflowError"
  by (simp add: randint_def VersionMessage_nonce_def int_to_little_endian_def)

text \<open>
  C10: the frame that \<open>serialize\<close> returns has the command, padded with zero bytes, as its
  12-byte command field and is 24 bytes longer than the payload if and only if the command
  has at most 12 bytes; for a longer command the frame holds the whole command without
  padding and is longer than the header layout allows.
\<close>

theorem C10_serialize_layout:
  assumes m: "MAGIC network = Some (magic e)"
    and s: "NetworkEnvelope_serialize e = Inr bs"
  shows "((take 12 (drop 4 bs) = command e @ replicate (12 - length (command e)) 0
           \<and> length bs = 24 + length (payload e))
          \<longleftrightarrow> length (command e) \<le> 12)
         \<and> (12 < length (command e) \<longrightarrow>
              bs = magic e @ command e @ le_bytes 4 (length (payload e))
                   @ take 4 (hash256 (payload e)) @ payload e
              \<and> length bs = 12 + length (command e) + length (payload e))"
proof -
  have lm: "length (magic e) = 4" using m by (rule MAGIC_length)
  have p: "length (payload e) < 2 ^ 32"
    using s serialize_total [of e] by blast
  have bs: "bs = magic e @ (command e @ replicate (12 - length (command e)) 0)
              @ le_bytes 4 (length (payload e)) @ take 4 (hash256 (payload e)) @ payload e"
    using serialize_layout [OF p] s by simp
  have len: "length bs = 4 + (length (command e) + (12 - length (command e))) + 4 + 4
                + length (payload e)"
    unfolding bs by (simp add: lm length_le_bytes length_hash256)
  have iff: "(take 12 (drop 4 bs) = command e @ replicate (12 - length (command e)) 0
          \<and> length bs = 24 + length (payload e))
         \<longleftrightarrow> length (command e) \<le> 12"
  proof
    assume "take 12 (drop 4 bs) = command e @ replicate (12 - length (command e)) 0
            \<and> length bs = 24 + length (payload e)"
    with len show "length (command e) \<le> 12" by simp
  next
    assume c: "length (command e) \<le> 12"
    then have "take 12 (drop 4 bs) = command e @ replicate (12 - length (command e)) 0"
      unfolding bs using lm by simp
    with c len show "take 12 (drop 4 bs) = command e @ replicate (12 - length (command e)) 0
            \<and> length bs = 24 + length (payload e)" by simp
  qed
  have long: "bs = magic e @ command e @ le_bytes 4 (length (payload e))
              @ take 4 (hash256 (payload e)) @ payload e
         \<and> length bs = 12 + length (command e) + length (payload e)"
    if "12 < length (command e)"
    using that len unfolding bs by simp
  from iff long show ?thesis by blast
qed

theorem C10_serialize_layout_witness:
  "NetworkEnvelope_serialize
     \<lparr>command = verack_command, payload = [], magic = [0xf9, 0xbe, 0xb4, 0xd9]\<rparr>
   = Inr [0xf9, 0xbe, 0xb4, 0xd9, 0x76, 0x65, 0x72, 0x61, 0x63, 0x6b, 0, 0, 0, 0, 0, 0,
          0, 0, 0, 0, 0x5d, 0xf6, 0xe0, 0xe2]
   \<and> length [0xf9, 0xbe, 0xb4, 0xd9, 0x76, 0x65, 0x72, 0x61, 0x63, 0x6b, 0, 0, 0, 0, 0, 0,
          0, 0, 0, 0, 0x5d, 0xf6, 0xe0, 0xe2 :: byte] = 24 + 0
   \<and> NetworkEnvelope_serialize
       \<lparr>command = replicate 13 0x61, payload = [], magic = [0xf9, 0xbe, 0xb4, 0xd9]\<rparr>
     = Inr ([0xf9, 0xbe, 0xb4, 0xd9] @ replicate 13 0x61 @ [0, 0, 0, 0]
            @ [0x5d, 0xf6, 0xe0, 0xe2])
   \<and> length ([0xf9, 0xbe, 0xb4, 0xd9] @ replicate 13 0x61 @ [0, 0, 0, 0]
            @ [0x5d, 0xf6, 0xe0, 0xe2 :: byte]) = 25"
proof -
  let ?e = "\<lparr>command = verack_command, payload = [], magic = [0xf9, 0xbe, 0xb4, 0xd9]\<rparr>"
  let ?bs = "[0xf9, 0xbe, 0xb4, 0xd9, 0x76, 0x65, 0x72, 0x61, 0x63, 0x6b, 0, 0, 0, 0, 0, 0,
          0, 0, 0, 0, 0x5d, 0xf6, 0xe0, 0xe2 :: byte]"
  let ?e' = "\<lparr>command = replicate 13 0x61, payload = [], magic = [0xf9, 0xbe, 0xb4, 0xd9]\<rparr>"
  let ?bs' = "[0xf9, 0xbe, 0xb4, 0xd9] @ replicate 13 0x61 @ [0, 0, 0, 0]
            @ [0x5d, 0xf6, 0xe0, 0xe2 :: byte]"
  have s: "NetworkEnvelope_serialize ?e = Inr ?bs"
    by (simp add: NetworkEnvelope_serialize_def int_to_little_endian_def le_bytes_4_0
        checksum_empty verack_command_def replicate_numeral_byte)
  have s': "NetworkEnvelope_serialize ?e' = Inr ?bs'"
    by (simp add: NetworkEnvelope_serialize_def int_to_little_endian_def le_bytes_4_0
        checksum_empty)
  have m: "MAGIC ''mainnet'' = Some (magic ?e)" by (simp add: MAGIC_mainnet)
  have m': "MAGIC ''mainnet'' = Some (magic ?e')" by (simp add: MAGIC_mainnet)
  from C10_serialize_layout [OF m s] C10_serialize_layout [OF m' s'] s s'
  show ?thesis by (simp add: verack_command_def length_le_bytes length_hash256)
qed

end
